theory Spec2Isabelle
  imports Complex_Main "HOL-Library.Sublist"
begin

section \<open>Python strings\<close>

text \<open>
  A Python \<^verbatim>\<open>str\<close> is modelled as a HOL \<open>string\<close>; a character stands for the code point
  of the same number, so the model covers the texts whose code points are below 256.
  \<open>lower\<close> is \<^verbatim>\<open>str.lower\<close>, \<open>is_space\<close> is \<^verbatim>\<open>str.isspace\<close> (the class \<^verbatim>\<open>\s\<close> of
  \<^verbatim>\<open>re\<close>), \<open>is_word\<close> the class \<^verbatim>\<open>\w\<close>, all on that range. The test \<^verbatim>\<open>k in text\<close> on
  strings is \<open>sublist k text\<close>.
\<close>

definition lower_char :: "char \<Rightarrow> char" where
  "lower_char c =
     (let n = (of_char c :: nat)
      in if (65 \<le> n \<and> n \<le> 90) \<or> (192 \<le> n \<and> n \<le> 222 \<and> n \<noteq> 215)
         then char_of (n + 32) else c)"

definition lower :: "string \<Rightarrow> string" where
  "lower s = map lower_char s"

definition is_space :: "char \<Rightarrow> bool" where
  "is_space c =
     (let n = (of_char c :: nat)
      in (9 \<le> n \<and> n \<le> 13) \<or> (28 \<le> n \<and> n \<le> 32) \<or> n = 133 \<or> n = 160)"

definition is_upper_az :: "char \<Rightarrow> bool" where
  "is_upper_az c = (let n = (of_char c :: nat) in 65 \<le> n \<and> n \<le> 90)"

definition is_lower_az :: "char \<Rightarrow> bool" where
  "is_lower_az c = (let n = (of_char c :: nat) in 97 \<le> n \<and> n \<le> 122)"

definition is_digit :: "char \<Rightarrow> bool" where
  "is_digit c = (let n = (of_char c :: nat) in 48 \<le> n \<and> n \<le> 57)"

definition is_word :: "char \<Rightarrow> bool" where
  "is_word c =
     (let n = (of_char c :: nat)
      in is_upper_az c \<or> is_lower_az c \<or> is_digit c \<or> n = 95
         \<or> n = 170 \<or> n = 178 \<or> n = 179 \<or> n = 181 \<or> n = 185 \<or> n = 186
         \<or> (188 \<le> n \<and> n \<le> 190) \<or> (192 \<le> n \<and> n \<noteq> 215 \<and> n \<noteq> 247))"

section \<open>Opportunity analyzer: the stored history\<close>

text \<open>
  The analyzer of \<^verbatim>\<open>cryptofarm/data_processor/opportunity_analyzer.py\<close> reads the tables
  \<^verbatim>\<open>projects\<close>, \<^verbatim>\<open>analyzed_data\<close> and \<^verbatim>\<open>raw_data\<close> through SQL queries. The tables are
  modelled as lists of rows in insertion order, the queries as list comprehensions.
  Python floats are modelled as real numbers (exact arithmetic, \<open>math.exp\<close> as \<open>exp\<close>);
  timestamps as integer seconds, with the query's \<^verbatim>\<open>datetime('now', '-N days')\<close> computed
  from an explicit \<open>now\<close>.

  A JSON column (\<^verbatim>\<open>context\<close>, \<^verbatim>\<open>categories\<close>) is read by
  \<^verbatim>\<open>json.loads(s) if s else []\<close> inside a \<^verbatim>\<open>try\<close>: \<open>Absent\<close> is NULL or the empty
  string, \<open>Malformed\<close> is a value on which the \<^verbatim>\<open>try\<close> block raises, \<open>Labels\<close> is a
  parsed list of strings.
\<close>

datatype json_field = Absent | Malformed | Labels "string list"

record analyzed_data =
  ad_project_id :: int
  ad_raw_data_id :: int
  ad_analysis_timestamp :: int
  ad_context :: json_field
  ad_categories :: json_field
  ad_priority_score :: real

record raw_data =
  rd_id :: int
  rd_content :: "string option"

record project_row =
  pr_id :: int
  pr_name :: string

record database =
  projects_tbl :: "project_row list"
  analyzed_tbl :: "analyzed_data list"
  raw_tbl :: "raw_data list"

definition days_ago :: "int \<Rightarrow> int \<Rightarrow> int" where
  "days_ago now n = now - n * 86400"

definition get_project :: "database \<Rightarrow> int \<Rightarrow> project_row option" where
  "get_project db project_id =
     (case filter (\<lambda>p. pr_id p = project_id) (projects_tbl db) of
        [] \<Rightarrow> None
      | p # _ \<Rightarrow> Some p)"

text \<open>\<^verbatim>\<open>SELECT COUNT(*) ... WHERE project_id = ? AND analysis_timestamp >= since\<close>: an
  aggregate without \<^verbatim>\<open>GROUP BY\<close> always yields exactly one row.\<close>

definition query_mention_count :: "database \<Rightarrow> int \<Rightarrow> int \<Rightarrow> int list" where
  "query_mention_count db project_id since =
     [int (length (filter (\<lambda>r. ad_project_id r = project_id \<and> since \<le> ad_analysis_timestamp r)
                     (analyzed_tbl db)))]"

definition query_previous_mentions :: "database \<Rightarrow> int \<Rightarrow> int \<Rightarrow> int \<Rightarrow> int list" where
  "query_previous_mentions db project_id since before =
     [int (length (filter (\<lambda>r. ad_project_id r = project_id \<and> since \<le> ad_analysis_timestamp r
                                 \<and> ad_analysis_timestamp r < before)
                     (analyzed_tbl db)))]"

definition calculate_activity_score :: "database \<Rightarrow> int \<Rightarrow> int \<Rightarrow> int \<Rightarrow> real" where
  "calculate_activity_score db now project_id days =
     (case query_mention_count db project_id (days_ago now days) of
        [] \<Rightarrow> 0.0
      | mention_count # _ \<Rightarrow> 1.0 / (1.0 + exp (- 0.4 * (real_of_int mention_count - 5))))"

definition calculate_community_growth :: "database \<Rightarrow> int \<Rightarrow> int \<Rightarrow> real" where
  "calculate_community_growth db now project_id =
     (case (query_mention_count db project_id (days_ago now 7),
            query_previous_mentions db project_id (days_ago now 14) (days_ago now 7)) of
        (recent_mentions # _, previous_mentions # _) \<Rightarrow>
          (let growth_rate =
                 (if previous_mentions = 0 then real_of_int recent_mentions
                  else real_of_int recent_mentions / real_of_int previous_mentions)
           in 1.0 / (1.0 + exp (- 1.5 * (growth_rate - 1.0))))
      | _ \<Rightarrow> 0.0)"

definition query_contexts :: "database \<Rightarrow> int \<Rightarrow> int \<Rightarrow> json_field list" where
  "query_contexts db project_id since =
     map ad_context
       (filter (\<lambda>r. ad_project_id r = project_id \<and> since \<le> ad_analysis_timestamp r)
          (analyzed_tbl db))"

definition positive_contexts :: "string list" where
  "positive_contexts = [''opportunity'', ''alpha'']"

definition negative_contexts :: "string list" where
  "negative_contexts = [''risk'']"

fun has_any :: "string list \<Rightarrow> json_field \<Rightarrow> bool" where
  "has_any wanted (Labels contexts) = list_ex (\<lambda>c. c \<in> set wanted) contexts"
| "has_any wanted Absent = False"
| "has_any wanted Malformed = False"

definition calculate_sentiment_score :: "database \<Rightarrow> int \<Rightarrow> int \<Rightarrow> real" where
  "calculate_sentiment_score db now project_id =
     (let results = query_contexts db project_id (days_ago now 14) in
      if results = [] then 0.5
      else
        let positive_count = length (filter (has_any positive_contexts) results);
            negative_count = length (filter (has_any negative_contexts) results);
            total_count = length results
        in if total_count = 0 then 0.5
           else
             let positive_ratio = real positive_count / real total_count;
                 negative_ratio = real negative_count / real total_count;
                 sentiment_score = 0.5 + (positive_ratio * 0.5) - (negative_ratio * 0.5)
             in max 0.0 (min 1.0 sentiment_score))"

text \<open>The urgency query: the rows of the last 7 days with \<open>priority_score \<ge> 1.3\<close>,
  \<^verbatim>\<open>ORDER BY priority_score DESC LIMIT 10\<close>. Rows of equal priority are kept in
  insertion order (a stable sort).\<close>

definition query_high_priority :: "database \<Rightarrow> int \<Rightarrow> int \<Rightarrow> analyzed_data list" where
  "query_high_priority db project_id since =
     take 10
       (sort_key (\<lambda>r. - ad_priority_score r)
          (filter (\<lambda>r. ad_project_id r = project_id \<and> since \<le> ad_analysis_timestamp r
                        \<and> 1.3 \<le> ad_priority_score r)
             (analyzed_tbl db)))"

fun labels_of :: "json_field \<Rightarrow> string list option" where
  "labels_of Absent = Some []"
| "labels_of (Labels xs) = Some xs"
| "labels_of Malformed = None"

definition is_time_sensitive :: "analyzed_data \<Rightarrow> bool" where
  "is_time_sensitive row =
     (case labels_of (ad_context row) of
        None \<Rightarrow> False
      | Some contexts \<Rightarrow>
          (case labels_of (ad_categories row) of
             None \<Rightarrow> False
           | Some categories \<Rightarrow>
               ''time_sensitive'' \<in> set contexts \<or> ''urgent_action'' \<in> set categories
               \<or> ''upcoming_opportunity'' \<in> set categories))"

definition urgency_of_rows :: "analyzed_data list \<Rightarrow> real" where
  "urgency_of_rows results =
     (if results = [] then 0.0
      else
        let time_sensitive_count = length (filter is_time_sensitive results);
            total_count = length results;
            max_priority_score =
              fold (\<lambda>row m. if m < ad_priority_score row then ad_priority_score row else m)
                results 0.0;
            time_sensitive_ratio =
              (if 0 < total_count then real time_sensitive_count / real total_count else 0.0);
            normalized_priority =
              min 1.0 (if 1.0 < max_priority_score then (max_priority_score - 1.0) / 1.0 else 0.0)
        in (time_sensitive_ratio * 0.6) + (normalized_priority * 0.4))"

definition calculate_urgency_score :: "database \<Rightarrow> int \<Rightarrow> int \<Rightarrow> real" where
  "calculate_urgency_score db now project_id =
     urgency_of_rows (query_high_priority db project_id (days_ago now 7))"

subsection \<open>Opportunity type, ROI potential and the combined score\<close>

record opp_category =
  oc_keywords :: "string list"
  oc_effort_level :: string
  oc_time_sensitivity :: string
  oc_roi_potential :: string

definition opportunity_categories :: "(string \<times> opp_category) list" where
  "opportunity_categories =
     [(''airdrop'',
         \<lparr>oc_keywords = [''airdrop'', ''free'', ''claim'', ''distribution'', ''eligible''],
          oc_effort_level = ''low'', oc_time_sensitivity = ''high'', oc_roi_potential = ''medium''\<rparr>),
      (''testnet'',
         \<lparr>oc_keywords = [''testnet'', ''test'', ''validator'', ''node'', ''incentivized''],
          oc_effort_level = ''medium'', oc_time_sensitivity = ''medium'', oc_roi_potential = ''high''\<rparr>),
      (''whitelist'',
         \<lparr>oc_keywords = [''whitelist'', ''allowlist'', ''wl'', ''presale'', ''early''],
          oc_effort_level = ''low'', oc_time_sensitivity = ''high'', oc_roi_potential = ''high''\<rparr>),
      (''staking'',
         \<lparr>oc_keywords = [''stake'', ''staking'', ''locked'', ''yield'', ''reward'', ''apr'', ''apy''],
          oc_effort_level = ''low'', oc_time_sensitivity = ''low'', oc_roi_potential = ''medium''\<rparr>),
      (''farming'',
         \<lparr>oc_keywords = [''farm'', ''farming'', ''liquidity'', ''pool'', ''yield''],
          oc_effort_level = ''medium'', oc_time_sensitivity = ''medium'', oc_roi_potential = ''medium''\<rparr>),
      (''token_launch'',
         \<lparr>oc_keywords = [''launch'', ''listing'', ''ido'', ''ico'', ''public sale''],
          oc_effort_level = ''high'', oc_time_sensitivity = ''high'', oc_roi_potential = ''high''\<rparr>),
      (''community_tasks'',
         \<lparr>oc_keywords = [''task'', ''quest'', ''mission'', ''bounty'', ''ambassador''],
          oc_effort_level = ''medium'', oc_time_sensitivity = ''medium'', oc_roi_potential = ''low''\<rparr>)]"

definition roi_levels :: "(string \<times> real) list" where
  "roi_levels = [(''low'', 1.0), (''medium'', 2.0), (''high'', 3.0)]"

definition weights :: "(string \<times> real) list" where
  "weights =
     [(''activity_level'', 0.25), (''community_growth'', 0.15), (''sentiment'', 0.15),
      (''urgency'', 0.20), (''roi_potential'', 0.25)]"

definition weight :: "string \<Rightarrow> real" where
  "weight k = (case map_of weights k of Some w \<Rightarrow> w | None \<Rightarrow> 0)"

definition category_to_opp :: "(string \<times> string list) list" where
  "category_to_opp =
     [(''upcoming_opportunity'', [''whitelist'', ''airdrop'', ''token_launch'']),
      (''active_investment'', [''staking'', ''farming'']),
      (''testnet_participation'', [''testnet'']),
      (''community'', [''community_tasks''])]"

text \<open>\<^verbatim>\<open>SELECT rd.content, ad.categories FROM analyzed_data ad JOIN raw_data rd ON
  ad.raw_data_id = rd.id WHERE ...\<close>\<close>

definition query_contents :: "database \<Rightarrow> int \<Rightarrow> int \<Rightarrow> (string option \<times> json_field) list" where
  "query_contents db project_id since =
     concat
       (map (\<lambda>ad. map (\<lambda>rd. (rd_content rd, ad_categories ad))
                     (filter (\<lambda>rd. rd_id rd = ad_raw_data_id ad) (raw_tbl db)))
          (filter (\<lambda>r. ad_project_id r = project_id \<and> since \<le> ad_analysis_timestamp r)
             (analyzed_tbl db)))"

definition add_count :: "string \<Rightarrow> real \<Rightarrow> (string \<times> real) list \<Rightarrow> (string \<times> real) list" where
  "add_count opp_type d counts = map (\<lambda>(k, v). if k = opp_type then (k, v + d) else (k, v)) counts"

definition count_row ::
  "(string option \<times> json_field) \<Rightarrow> (string \<times> real) list \<Rightarrow> (string \<times> real) list" where
  "count_row row opportunity_counts =
     (case fst row of
        None \<Rightarrow> opportunity_counts
      | Some raw_content \<Rightarrow>
          if raw_content = [] then opportunity_counts
          else
            let content = lower raw_content;
                counts1 =
                  fold (\<lambda>(opp_type, opp_data) cs.
                          if list_ex (\<lambda>keyword. sublist keyword content) (oc_keywords opp_data)
                          then add_count opp_type 1 cs else cs)
                    opportunity_categories opportunity_counts
            in case labels_of (snd row) of
                 None \<Rightarrow> counts1
               | Some categories \<Rightarrow>
                   fold (\<lambda>(category, opp_types) cs.
                           if category \<in> set categories
                           then fold (\<lambda>opp_type. add_count opp_type 0.5) opp_types cs else cs)
                     category_to_opp counts1)"

definition detect_opportunity_type :: "database \<Rightarrow> int \<Rightarrow> int \<Rightarrow> string \<times> real" where
  "detect_opportunity_type db now project_id =
     (let results = query_contents db project_id (days_ago now 7) in
      if results = [] then (''unknown'', 0.0)
      else
        let opportunity_counts =
              fold count_row results (map (\<lambda>(opp_type, _). (opp_type, 0)) opportunity_categories);
            total_items = length results;
            (max_count, primary_opportunity) =
              fold (\<lambda>(opp_type, count) (mx, prim). if mx < count then (count, opp_type) else (mx, prim))
                opportunity_counts (0, ''unknown'');
            confidence = (if 0 < total_items then max_count / real total_items else 0.0)
        in (primary_opportunity, min 1.0 confidence))"

definition calculate_roi_potential :: "database \<Rightarrow> int \<Rightarrow> int \<Rightarrow> string \<Rightarrow> real" where
  "calculate_roi_potential db now project_id opportunity_type =
     (case get_project db project_id of
        None \<Rightarrow> 0.0
      | Some project \<Rightarrow>
          let base_roi =
                (case map_of opportunity_categories opportunity_type of
                   Some opp_data \<Rightarrow>
                     (case map_of roi_levels (oc_roi_potential opp_data) of
                        Some v \<Rightarrow> v
                      | None \<Rightarrow> 1.0)
                 | None \<Rightarrow> 1.0);
              activity_score = calculate_activity_score db now project_id 7;
              sentiment_score = calculate_sentiment_score db now project_id;
              adjusted_roi =
                base_roi * (1.0 + ((activity_score - 0.5) * 0.5) + ((sentiment_score - 0.5) * 0.5));
              normalized_roi = adjusted_roi / 3.0
          in max 0.0 (min 1.0 normalized_roi))"

record component_scores =
  cs_activity :: real
  cs_community_growth :: real
  cs_sentiment :: real
  cs_urgency :: real
  cs_roi_potential :: real

record opportunity_result =
  os_project_id :: int
  os_project_name :: string
  os_opportunity_score :: real
  os_opportunity_type :: string
  os_opportunity_confidence :: real
  os_component_scores :: component_scores
  os_effort_level :: string
  os_time_sensitivity :: string
  os_worth_participating :: bool

record score_error =
  err_project_id :: int
  err_opportunity_score :: real
  err_error :: string

definition calculate_opportunity_score :: "database \<Rightarrow> int \<Rightarrow> int \<Rightarrow> score_error + opportunity_result" where
  "calculate_opportunity_score db now project_id =
     (case get_project db project_id of
        None \<Rightarrow>
          Inl \<lparr>err_project_id = project_id, err_opportunity_score = 0.0,
               err_error = ''Project not found''\<rparr>
      | Some project \<Rightarrow>
          let activity_score = calculate_activity_score db now project_id 7;
              community_growth = calculate_community_growth db now project_id;
              sentiment_score = calculate_sentiment_score db now project_id;
              urgency_score = calculate_urgency_score db now project_id;
              (opportunity_type, opportunity_confidence) = detect_opportunity_type db now project_id;
              roi_potential = calculate_roi_potential db now project_id opportunity_type;
              weighted_score =
                (activity_score * weight ''activity_level'') +
                (community_growth * weight ''community_growth'') +
                (sentiment_score * weight ''sentiment'') +
                (urgency_score * weight ''urgency'') +
                (roi_potential * weight ''roi_potential'');
              opportunity_score = weighted_score * 100;
              effort_level =
                (case map_of opportunity_categories opportunity_type of
                   Some opp_data \<Rightarrow> oc_effort_level opp_data | None \<Rightarrow> ''medium'');
              time_sensitivity_level =
                (case map_of opportunity_categories opportunity_type of
                   Some opp_data \<Rightarrow> oc_time_sensitivity opp_data | None \<Rightarrow> ''medium'')
          in Inr \<lparr>os_project_id = project_id,
                  os_project_name = pr_name project,
                  os_opportunity_score = opportunity_score,
                  os_opportunity_type = opportunity_type,
                  os_opportunity_confidence = opportunity_confidence,
                  os_component_scores =
                    \<lparr>cs_activity = activity_score, cs_community_growth = community_growth,
                     cs_sentiment = sentiment_score, cs_urgency = urgency_score,
                     cs_roi_potential = roi_potential\<rparr>,
                  os_effort_level = effort_level,
                  os_time_sensitivity = time_sensitivity_level,
                  os_worth_participating = (70 \<le> opportunity_score)\<rparr>)"

section \<open>Data classifier\<close>

subsection \<open>Regular expressions used by the classifier\<close>

text \<open>
  \<^verbatim>\<open>re.findall\<close> scans the text from left to right: at each position the pattern is tried;
  on success the group is emitted and the scan resumes after the match, otherwise it moves
  one character on. A pattern is a function from the remaining text to the matched group
  and the length of the whole match (never zero for the patterns below). The second
  argument counts the characters of the last match still to be skipped.
\<close>

type_synonym pattern = "string \<Rightarrow> (string \<times> nat) option"

fun findall_from :: "pattern \<Rightarrow> nat \<Rightarrow> string \<Rightarrow> string list" where
  "findall_from pat k [] = []"
| "findall_from pat (Suc k) (c # cs) = findall_from pat k cs"
| "findall_from pat 0 (c # cs) =
     (case pat (c # cs) of
        Some (g, n) \<Rightarrow> g # findall_from pat (n - 1) cs
      | None \<Rightarrow> findall_from pat 0 cs)"

definition findall :: "pattern \<Rightarrow> string \<Rightarrow> string list" where
  "findall pat text = findall_from pat 0 text"

text \<open>A literal matched at the start of the text; under \<^verbatim>\<open>re.IGNORECASE\<close> a character
  matches a (lower-case) literal character when its lower-case form does.\<close>

fun match_lit :: "string \<Rightarrow> string \<Rightarrow> string option" where
  "match_lit [] s = Some s"
| "match_lit (l # ls) [] = None"
| "match_lit (l # ls) (c # cs) = (if c = l then match_lit ls cs else None)"

fun match_lit_ci :: "string \<Rightarrow> string \<Rightarrow> string option" where
  "match_lit_ci [] s = Some s"
| "match_lit_ci (l # ls) [] = None"
| "match_lit_ci (l # ls) (c # cs) = (if lower_char c = l then match_lit_ci ls cs else None)"

text \<open>\<^verbatim>\<open>https?://\S+\<close>: the rest of the text after the match, if the text starts with one.\<close>

definition match_url :: "string \<Rightarrow> string option" where
  "match_url s =
     (case match_lit ''http'' s of
        None \<Rightarrow> None
      | Some r \<Rightarrow>
          (case match_lit ''://'' (case r of c # r' \<Rightarrow> if c = CHR ''s'' then r' else r | [] \<Rightarrow> r) of
             None \<Rightarrow> None
           | Some u \<Rightarrow>
               if takeWhile (\<lambda>c. \<not> is_space c) u = [] then None
               else Some (dropWhile (\<lambda>c. \<not> is_space c) u)))"

lemma match_lit_length: "match_lit l s = Some r \<Longrightarrow> length s = length l + length r"
  by (induction l s rule: match_lit.induct) (auto split: if_splits)

lemma match_url_shorter: "match_url s = Some r \<Longrightarrow> length r < length s"
proof -
  assume h: "match_url s = Some r"
  then obtain r1 where r1: "match_lit ''http'' s = Some r1"
    by (auto simp: match_url_def split: option.splits)
  have l1: "length s = 4 + length r1" using match_lit_length[OF r1] by simp
  define r2 where "r2 = (case r1 of c # r' \<Rightarrow> if c = CHR ''s'' then r' else r1 | [] \<Rightarrow> r1)"
  have l2: "length r2 \<le> length r1" by (simp add: r2_def split: list.splits)
  from h r1 obtain u where u: "match_lit ''://'' r2 = Some u"
    and r: "r = dropWhile (\<lambda>c. \<not> is_space c) u"
    by (auto simp: match_url_def r2_def split: option.splits if_splits)
  have l3: "length r2 = 3 + length u" using match_lit_length[OF u] by simp
  have "length r \<le> length u" unfolding r by (rule length_dropWhile_le)
  with l1 l2 l3 show ?thesis by simp
qed

text \<open>\<^verbatim>\<open>re.sub(r'https?://\S+', '', text)\<close>\<close>

function re_sub_urls :: "string \<Rightarrow> string" where
  "re_sub_urls [] = []"
| "re_sub_urls (c # cs) =
     (case match_url (c # cs) of
        Some rest \<Rightarrow> re_sub_urls rest
      | None \<Rightarrow> c # re_sub_urls cs)"
  by pat_completeness auto
termination
  by (relation "measure length") (auto dest: match_url_shorter)

text \<open>\<^verbatim>\<open>re.sub(r'\s+', ' ', text)\<close> and \<^verbatim>\<open>str.strip()\<close>\<close>

function re_sub_whitespace :: "string \<Rightarrow> string" where
  "re_sub_whitespace [] = []"
| "re_sub_whitespace (c # cs) =
     (if is_space c then CHR '' '' # re_sub_whitespace (dropWhile is_space cs)
      else c # re_sub_whitespace cs)"
  by pat_completeness auto
termination
  by (relation "measure length") (auto simp: less_Suc_eq_le length_dropWhile_le)

definition strip :: "string \<Rightarrow> string" where
  "strip s = rev (dropWhile is_space (rev (dropWhile is_space s)))"

definition replace_char :: "char \<Rightarrow> char \<Rightarrow> string \<Rightarrow> string" where
  "replace_char old new s = map (\<lambda>c. if c = old then new else c) s"

subsection \<open>preprocess\_text\<close>

text \<open>The argument is a string. (For a value that is not a string the source returns the
  empty string, which the steps below leave as it is.)\<close>

definition preprocess_text :: "string \<Rightarrow> string" where
  "preprocess_text text0 =
     (let text = lower text0;
          text = replace_char (CHR ''$'') (CHR '' '') text;
          text = replace_char (CHR ''#'') (CHR '' '') text;
          text = replace_char (CHR ''@'') (CHR '' '') text;
          text = re_sub_urls text;
          text = strip (re_sub_whitespace text)
      in text)"

subsection \<open>Project configuration\<close>

text \<open>\<^verbatim>\<open>ProjectConfig\<close> of \<^verbatim>\<open>cryptofarm/config.py\<close>: the tracked projects by priority level,
  in the order of the dictionary (\<^verbatim>\<open>high_priority\<close> first).\<close>

record project =
  p_name :: string
  p_symbol :: string
  p_official_channels :: "string list"
  p_partner_channels :: "string list"
  p_keywords :: "string list"
  p_contracts :: "string list"

record project_config =
  high_priority :: "project list"
  medium_priority :: "project list"

definition source_weights :: "(string \<times> real) list" where
  "source_weights =
     [(''official'', 1.0), (''partner'', 0.8), (''community'', 0.6), (''general'', 0.4)]"

definition source_weight_of :: "string \<Rightarrow> real" where
  "source_weight_of k = (case map_of source_weights k of Some w \<Rightarrow> w | None \<Rightarrow> 0)"

text \<open>\<open>get_all_projects\<close>: every project paired with its priority level (the copy's
  \<^verbatim>\<open>'priority'\<close> entry).\<close>

definition get_all_projects :: "project_config \<Rightarrow> (string \<times> project) list" where
  "get_all_projects cfg =
     map (\<lambda>p. (''high_priority'', p)) (high_priority cfg)
     @ map (\<lambda>p. (''medium_priority'', p)) (medium_priority cfg)"

record channel_info =
  ci_weight :: real
  ci_project :: string
  ci_type :: string

definition get_all_channels :: "project_config \<Rightarrow> (string \<rightharpoonup> channel_info)" where
  "get_all_channels cfg =
     fold (\<lambda>(priority, p) channels.
             fold (\<lambda>channel m. m(channel \<mapsto>
                     \<lparr>ci_weight = source_weight_of ''partner'', ci_project = p_name p,
                      ci_type = ''partner''\<rparr>))
               (p_partner_channels p)
               (fold (\<lambda>channel m. m(channel \<mapsto>
                        \<lparr>ci_weight = source_weight_of ''official'', ci_project = p_name p,
                         ci_type = ''official''\<rparr>))
                  (p_official_channels p) channels))
       (get_all_projects cfg) Map.empty"

text \<open>\<open>get_all_keywords\<close>: a dictionary from the lower-cased keyword to the projects that
  list it, kept as an association list in insertion order (the classifier iterates over it).\<close>

definition add_keyword ::
  "string \<Rightarrow> string \<times> string \<Rightarrow> (string \<times> (string \<times> string) list) list
   \<Rightarrow> (string \<times> (string \<times> string) list) list" where
  "add_keyword keyword entry keywords =
     (if keyword \<in> fst ` set keywords
      then map (\<lambda>(k, l). if k = keyword then (k, l @ [entry]) else (k, l)) keywords
      else keywords @ [(keyword, [entry])])"

definition get_all_keywords :: "project_config \<Rightarrow> (string \<times> (string \<times> string) list) list" where
  "get_all_keywords cfg =
     fold (\<lambda>(priority, p) keywords.
             fold (\<lambda>keyword. add_keyword (lower keyword) (p_name p, priority)) (p_keywords p) keywords)
       (get_all_projects cfg) []"

subsection \<open>identify\_projects\<close>

record matched_project =
  mp_name :: string
  mp_priority :: "string option"
  mp_confidence :: real
  mp_source :: string

text \<open>\<^verbatim>\<open>\$([A-Z]{2,10})\b\<close>: a dollar sign, a run of 2 to 10 capital letters, and a word
  boundary after it.\<close>

definition match_symbol :: pattern where
  "match_symbol s =
     (case s of
        [] \<Rightarrow> None
      | c # cs \<Rightarrow>
          if c = CHR ''$'' then
            (let run = takeWhile is_upper_az cs; rest = dropWhile is_upper_az cs
             in if 2 \<le> length run \<and> length run \<le> 10 \<and> (rest = [] \<or> \<not> is_word (hd rest))
                then Some (run, 1 + length run) else None)
          else None)"

definition is_hex :: "char \<Rightarrow> bool" where
  "is_hex c = (let n = (of_char c :: nat)
               in is_digit c \<or> (97 \<le> n \<and> n \<le> 102) \<or> (65 \<le> n \<and> n \<le> 70))"

text \<open>\<^verbatim>\<open>0x[a-fA-F0-9]{40}\<close>\<close>

definition match_contract :: pattern where
  "match_contract s =
     (case match_lit ''0x'' s of
        None \<Rightarrow> None
      | Some r \<Rightarrow>
          if 40 \<le> length r \<and> list_all is_hex (take 40 r) then Some (take 42 s, 42) else None)"

definition dedupe_projects :: "matched_project list \<Rightarrow> matched_project list" where
  "dedupe_projects projects =
     fold (\<lambda>p unique. if list_ex (\<lambda>q. mp_name q = mp_name p) unique then unique else unique @ [p])
       projects []"

definition identify_projects ::
  "project_config \<Rightarrow> string \<Rightarrow> string option \<Rightarrow> matched_project list" where
  "identify_projects cfg text0 channel =
     (let text = preprocess_text text0;
          from_channel =
            (case channel of
               None \<Rightarrow> []
             | Some ch \<Rightarrow>
                 if ch = [] then []
                 else (case get_all_channels cfg ch of
                         None \<Rightarrow> []
                       | Some channel_info \<Rightarrow>
                           [\<lparr>mp_name = ci_project channel_info, mp_priority = None,
                             mp_confidence = ci_weight channel_info, mp_source = ''channel''\<rparr>]));
          from_keywords =
            concat (map (\<lambda>(keyword, project_list).
                           if sublist keyword text
                           then map (\<lambda>(pname, priority).
                                       \<lparr>mp_name = pname, mp_priority = Some priority,
                                        mp_confidence = (if priority = ''high_priority'' then 0.8 else 0.6),
                                        mp_source = ''keyword''\<rparr>) project_list
                           else [])
                      (get_all_keywords cfg));
          symbols = findall match_symbol text;
          from_symbols =
            concat (map (\<lambda>symbol.
                           map (\<lambda>(priority, p).
                                  \<lparr>mp_name = p_name p, mp_priority = Some priority,
                                   mp_confidence = 0.7, mp_source = ''symbol''\<rparr>)
                             (filter (\<lambda>(priority, p). lower symbol = lower (p_symbol p))
                                (get_all_projects cfg)))
                      symbols);
          contracts = findall match_contract text;
          from_contracts =
            concat (map (\<lambda>contract.
                           map (\<lambda>(priority, p).
                                  \<lparr>mp_name = p_name p, mp_priority = Some priority,
                                   mp_confidence = 0.9, mp_source = ''contract''\<rparr>)
                             (filter (\<lambda>(priority, p). lower contract \<in> set (map lower (p_contracts p)))
                                (get_all_projects cfg)))
                      contracts)
      in dedupe_projects (from_channel @ from_keywords @ from_symbols @ from_contracts))"

definition get_source_weight :: "project_config \<Rightarrow> string \<Rightarrow> string option \<Rightarrow> real" where
  "get_source_weight cfg source_type channel =
     (case (case channel of
              None \<Rightarrow> None
            | Some ch \<Rightarrow> if ch = [] then None else get_all_channels cfg ch) of
        Some channel_info \<Rightarrow> ci_weight channel_info
      | None \<Rightarrow> (case map_of source_weights source_type of Some w \<Rightarrow> w | None \<Rightarrow> 0.4))"

subsection \<open>calculate\_priority\_score\<close>

record analysis =
  an_categories :: "string list"
  an_context :: "string list"
  an_projects :: "matched_project list"
  an_source_weight :: real

text \<open>The project multiplier of a non-empty list of matched projects:
  \<^verbatim>\<open>max(1.5 if p.get('priority') == 'high_priority' else 1.2 for p in projects)
  if any('priority' in p for p in projects) else 1.0\<close>.\<close>

definition max_project_score :: "matched_project \<Rightarrow> matched_project list \<Rightarrow> real" where
  "max_project_score p ps =
     (if list_ex (\<lambda>q. mp_priority q \<noteq> None) (p # ps)
      then fold max (map (\<lambda>q. if mp_priority q = Some ''high_priority'' then 1.5 else 1.2) ps)
             (if mp_priority p = Some ''high_priority'' then 1.5 else 1.2)
      else 1.0)"

definition project_multiplier :: "matched_project list \<Rightarrow> real" where
  "project_multiplier projects =
     (case projects of [] \<Rightarrow> 1.0 | p # ps \<Rightarrow> max_project_score p ps)"

definition times_if :: "bool \<Rightarrow> real \<Rightarrow> real \<Rightarrow> real" where
  "times_if b m score = (if b then score * m else score)"

definition calculate_priority_score :: "analysis \<Rightarrow> real" where
  "calculate_priority_score a =
     (let score = 1.0;
          score = score * project_multiplier (an_projects a);
          score = times_if (''high_impact'' \<in> set (an_context a)) 1.3 score;
          score = times_if (''time_sensitive'' \<in> set (an_context a)) 1.4 score;
          score = times_if (''alpha'' \<in> set (an_context a)) 1.2 score;
          score = times_if (''risk'' \<in> set (an_context a)) 1.5 score;
          score = times_if (''opportunity'' \<in> set (an_context a)) 1.25 score;
          score = times_if (''urgent_action'' \<in> set (an_categories a)) 1.5 score;
          score = times_if (''active_investment'' \<in> set (an_categories a)) 1.3 score;
          score = times_if (''project_launch'' \<in> set (an_categories a)) 1.25 score;
          score = times_if (''upcoming_opportunity'' \<in> set (an_categories a)) 1.35 score;
          score = score * an_source_weight a
      in score)"

subsection \<open>detect\_new\_projects\<close>

definition is_name_char :: "char \<Rightarrow> bool" where
  "is_name_char c = (is_upper_az c \<or> is_lower_az c \<or> is_digit c \<or> c = CHR ''_'')"

text \<open>\<^verbatim>\<open>LITERAL[:\s]+([A-Za-z0-9_]+)\<close> under \<^verbatim>\<open>re.IGNORECASE\<close>\<close>

definition match_name_after :: "string \<Rightarrow> pattern" where
  "match_name_after lit s =
     (case match_lit_ci lit s of
        None \<Rightarrow> None
      | Some r \<Rightarrow>
          let sep = takeWhile (\<lambda>c. c = CHR '':'' \<or> is_space c) r;
              r2 = dropWhile (\<lambda>c. c = CHR '':'' \<or> is_space c) r;
              nm = takeWhile is_name_char r2
          in if sep \<noteq> [] \<and> nm \<noteq> [] then Some (nm, length lit + length sep + length nm)
             else None)"

text \<open>\<^verbatim>\<open>([A-Za-z0-9_]+)LITERAL\<close> under \<^verbatim>\<open>re.IGNORECASE\<close>; the literal starts with a space\<close>

definition match_name_before :: "string \<Rightarrow> pattern" where
  "match_name_before lit s =
     (let nm = takeWhile is_name_char s; r = dropWhile is_name_char s
      in if nm = [] then None
         else (case match_lit_ci lit r of
                 None \<Rightarrow> None
               | Some _ \<Rightarrow> Some (nm, length nm + length lit)))"

text \<open>\<^verbatim>\<open>\$([A-Z]{2,10}) launch\<close> under \<^verbatim>\<open>re.IGNORECASE\<close>\<close>

definition match_symbol_launch :: pattern where
  "match_symbol_launch s =
     (case s of
        [] \<Rightarrow> None
      | c # cs \<Rightarrow>
          if c = CHR ''$'' then
            (let run = takeWhile (\<lambda>c. is_upper_az c \<or> is_lower_az c) cs;
                 rest = dropWhile (\<lambda>c. is_upper_az c \<or> is_lower_az c) cs
             in if 2 \<le> length run \<and> length run \<le> 10 then
                  (case match_lit_ci '' launch'' rest of
                     None \<Rightarrow> None
                   | Some _ \<Rightarrow> Some (run, 1 + length run + 7))
                else None)
          else None)"

definition discovery_patterns :: "pattern list" where
  "discovery_patterns =
     [match_name_after ''new project'',
      match_name_after ''upcoming project'',
      match_name_before '' is launching'',
      match_name_before '' token launch'',
      match_name_before '' airdrop'',
      match_symbol_launch]"

text \<open>\<^verbatim>\<open>str.count\<close>: the number of non-overlapping occurrences, scanning from the left.\<close>

fun count_from :: "nat \<Rightarrow> string \<Rightarrow> string \<Rightarrow> nat" where
  "count_from k sub [] = 0"
| "count_from (Suc k) sub (c # cs) = count_from k sub cs"
| "count_from 0 sub (c # cs) =
     (if prefix sub (c # cs) then 1 + count_from (length sub - 1) sub cs
      else count_from 0 sub cs)"

definition str_count :: "string \<Rightarrow> string \<Rightarrow> nat" where
  "str_count text sub = (if sub = [] then length text + 1 else count_from 0 sub text)"

definition nearby_keywords :: "string list" where
  "nearby_keywords = [''launch'', ''token'', ''project'', ''airdrop'', ''whitelist'']"

record new_project =
  np_name :: string
  np_confidence :: real
  np_source :: string

definition is_known_project :: "project_config \<Rightarrow> string \<Rightarrow> bool" where
  "is_known_project cfg m = list_ex (\<lambda>(priority, p). lower (p_name p) = lower m) (get_all_projects cfg)"

definition discovery_confidence :: "string \<Rightarrow> string \<Rightarrow> real" where
  "discovery_confidence text m =
     (let confidence = 0.6;
          mention_count = str_count (lower text) (lower m);
          confidence =
            (if 1 < mention_count then confidence + min 0.2 (real mention_count * 0.05)
             else confidence);
          nearby_count = length (filter (\<lambda>keyword. sublist keyword (lower text)) nearby_keywords)
      in confidence + min 0.2 (real nearby_count * 0.04))"

definition dedupe_new_projects :: "new_project list \<Rightarrow> new_project list" where
  "dedupe_new_projects new_projects =
     fold (\<lambda>p unique.
             if list_ex (\<lambda>q. lower (np_name q) = lower (np_name p)) unique then unique
             else unique @ [p])
       new_projects []"

definition detect_new_projects :: "project_config \<Rightarrow> string \<Rightarrow> new_project list" where
  "detect_new_projects cfg text =
     dedupe_new_projects
       (concat
          (map (\<lambda>pat.
                  map (\<lambda>m. \<lparr>np_name = m, np_confidence = discovery_confidence text m,
                             np_source = ''discovery''\<rparr>)
                    (filter (\<lambda>m. \<not> is_known_project cfg m) (findall pat text)))
             discovery_patterns))"

text \<open>The confidence of a discovered name as the specification words it, to be compared
  with \<open>discovery_confidence\<close>: base 0.6, plus 0.05 per mention beyond the first capped
  at 0.2, plus 0.04 per signal word present capped at 0.2.\<close>

definition spec_discovery_confidence :: "nat \<Rightarrow> nat \<Rightarrow> real" where
  "spec_discovery_confidence extra_mentions signal_words =
     0.6 + min 0.2 (0.05 * real extra_mentions) + min 0.2 (0.04 * real signal_words)"

section \<open>Example data\<close>

text \<open>A project without any history, a project whose only record is older than every
  window, and a project with ten urgent records of the last week.\<close>

definition no_history_db :: database where
  "no_history_db = \<lparr>projects_tbl = [\<lparr>pr_id = 1, pr_name = ''Alpha''\<rparr>], analyzed_tbl = [], raw_tbl = []\<rparr>"

definition old_history_db :: database where
  "old_history_db = \<lparr>projects_tbl = [\<lparr>pr_id = 1, pr_name = ''Alpha''\<rparr>],
     analyzed_tbl = [\<lparr>ad_project_id = 1, ad_raw_data_id = 0, ad_analysis_timestamp = 0,
       ad_context = Labels [''risk''], ad_categories = Absent, ad_priority_score = 2\<rparr>], raw_tbl = []\<rparr>"

definition urgent_row :: "real \<Rightarrow> analyzed_data" where
  "urgent_row p = \<lparr>ad_project_id = 1, ad_raw_data_id = 0, ad_analysis_timestamp = 0,
      ad_context = Labels [''time_sensitive''], ad_categories = Absent, ad_priority_score = p\<rparr>"

definition plain_row :: "real \<Rightarrow> analyzed_data" where
  "plain_row p = \<lparr>ad_project_id = 1, ad_raw_data_id = 0, ad_analysis_timestamp = 0,
      ad_context = Absent, ad_categories = Absent, ad_priority_score = p\<rparr>"

definition busy_db :: database where
  "busy_db = \<lparr>projects_tbl = [\<lparr>pr_id = 1, pr_name = ''Alpha''\<rparr>],
     analyzed_tbl = [urgent_row 2, urgent_row 2, urgent_row 2, urgent_row 2, urgent_row 2,
                     urgent_row 2, urgent_row 2, urgent_row 2, urgent_row 2, urgent_row 2],
     raw_tbl = []\<rparr>"

text \<open>A configuration with one high-priority project that has an official channel and a
  keyword, and one with a medium-priority project known by its symbol only.\<close>

definition channel_cfg :: project_config where
  "channel_cfg = \<lparr>high_priority = [\<lparr>p_name = ''Alpha'', p_symbol = ''ABC'', p_official_channels = [''alpha_official''],
      p_partner_channels = [], p_keywords = [''alphanet''], p_contracts = []\<rparr>], medium_priority = []\<rparr>"

definition symbol_cfg :: project_config where
  "symbol_cfg = \<lparr>high_priority = [], medium_priority = [\<lparr>p_name = ''Abacus'', p_symbol = ''ABC'', p_official_channels = [],
      p_partner_channels = [], p_keywords = [], p_contracts = []\<rparr>]\<rparr>"

section \<open>Properties of the opportunity analyzer\<close>

subsection \<open>Ranges of the component scores\<close>

lemma activity_range: "0 < calculate_activity_score db now pid d \<and> calculate_activity_score db now pid d < 1"
  by (simp add: calculate_activity_score_def query_mention_count_def add_pos_pos)

lemma growth_range: "0 < calculate_community_growth db now pid \<and> calculate_community_growth db now pid < 1"
  by (simp add: calculate_community_growth_def query_mention_count_def query_previous_mentions_def Let_def add_pos_pos)

lemma sentiment_range: "0 \<le> calculate_sentiment_score db now pid \<and> calculate_sentiment_score db now pid \<le> 1"
  by (simp add: calculate_sentiment_score_def Let_def)

lemma roi_range: "0 \<le> calculate_roi_potential db now pid t \<and> calculate_roi_potential db now pid t \<le> 1"
  by (simp add: calculate_roi_potential_def Let_def split: option.splits)

lemma urgency_of_rows_range: "0 \<le> urgency_of_rows rows \<and> urgency_of_rows rows \<le> 1"
proof (cases "rows = []")
  case True
  then show ?thesis by (simp add: urgency_of_rows_def)
next
  case False
  define ratio where "ratio = real (length (filter is_time_sensitive rows)) / real (length rows)"
  define m where "m = fold (\<lambda>row m. if m < ad_priority_score row then ad_priority_score row else m) rows 0.0"
  define norm where "norm = min 1.0 (if 1.0 < m then (m - 1.0) / 1.0 else 0.0)"
  have len: "0 < length rows" using False by simp
  have "length (filter is_time_sensitive rows) \<le> length rows" by simp
  then have r: "0 \<le> ratio \<and> ratio \<le> 1" using len by (simp add: ratio_def)
  have n: "0 \<le> norm \<and> norm \<le> 1" by (simp add: norm_def)
  have "urgency_of_rows rows = ratio * 0.6 + norm * 0.4"
    using False len by (simp add: urgency_of_rows_def Let_def ratio_def m_def norm_def)
  with r n show ?thesis by simp
qed

lemma urgency_range: "0 \<le> calculate_urgency_score db now pid \<and> calculate_urgency_score db now pid \<le> 1"
  by (simp add: calculate_urgency_score_def urgency_of_rows_range)

lemma weighted_range:
  fixes a g s u r :: real
  assumes "0 \<le> a" "a \<le> 1" "0 \<le> g" "g \<le> 1" "0 \<le> s" "s \<le> 1" "0 \<le> u" "u \<le> 1" "0 \<le> r" "r \<le> 1"
  shows "0 \<le> (a * 0.25 + g * 0.15 + s * 0.15 + u * 0.20 + r * 0.25) * 100
       \<and> (a * 0.25 + g * 0.15 + s * 0.15 + u * 0.20 + r * 0.25) * 100 \<le> 100"
  using assms by simp

lemma weight_values:
  "weight ''activity_level'' = 0.25" "weight ''community_growth'' = 0.15" "weight ''sentiment'' = 0.15"
  "weight ''urgency'' = 0.20" "weight ''roi_potential'' = 0.25"
  by (simp_all add: weight_def weights_def)

lemma score_Inr:
  assumes "calculate_opportunity_score db now pid = Inr res"
  shows "cs_activity (os_component_scores res) = calculate_activity_score db now pid 7"
    and "cs_community_growth (os_component_scores res) = calculate_community_growth db now pid"
    and "cs_sentiment (os_component_scores res) = calculate_sentiment_score db now pid"
    and "cs_urgency (os_component_scores res) = calculate_urgency_score db now pid"
    and "cs_roi_potential (os_component_scores res) =
           calculate_roi_potential db now pid (fst (detect_opportunity_type db now pid))"
    and "os_opportunity_score res =
           (cs_activity (os_component_scores res) * 0.25
            + cs_community_growth (os_component_scores res) * 0.15
            + cs_sentiment (os_component_scores res) * 0.15
            + cs_urgency (os_component_scores res) * 0.20
            + cs_roi_potential (os_component_scores res) * 0.25) * 100"
    and "os_worth_participating res = (70 \<le> os_opportunity_score res)"
  using assms
  by (auto simp: calculate_opportunity_score_def Let_def weight_values split: option.splits prod.splits)

lemma no_history_scored: "\<exists>res. calculate_opportunity_score no_history_db 0 1 = Inr res"
  by (simp add: calculate_opportunity_score_def get_project_def no_history_db_def Let_def
        split: prod.splits)

lemma unknown_project_error:
  "get_project db pid = None \<Longrightarrow>
   calculate_opportunity_score db now pid =
     Inl \<lparr>err_project_id = pid, err_opportunity_score = 0, err_error = ''Project not found''\<rparr>"
  by (simp add: calculate_opportunity_score_def)

text \<open>
  Claim C2. Whenever \<open>calculate_opportunity_score\<close> scores a project, each of the five
  component scores of the result (activity, community growth, sentiment, urgency, ROI
  potential) lies between 0 and 1, and the combined opportunity score, the weighted sum
  with the weights 0.25, 0.15, 0.15, 0.20 and 0.25 scaled by 100, lies between 0 and 100.
  This holds for every database and every time of the call.
\<close>

theorem component_scores_in_range:
  assumes "calculate_opportunity_score db now pid = Inr res"
  shows "0 \<le> cs_activity (os_component_scores res) \<and> cs_activity (os_component_scores res) \<le> 1
       \<and> 0 \<le> cs_community_growth (os_component_scores res) \<and> cs_community_growth (os_component_scores res) \<le> 1
       \<and> 0 \<le> cs_sentiment (os_component_scores res) \<and> cs_sentiment (os_component_scores res) \<le> 1
       \<and> 0 \<le> cs_urgency (os_component_scores res) \<and> cs_urgency (os_component_scores res) \<le> 1
       \<and> 0 \<le> cs_roi_potential (os_component_scores res) \<and> cs_roi_potential (os_component_scores res) \<le> 1
       \<and> 0 \<le> os_opportunity_score res \<and> os_opportunity_score res \<le> 100"
proof -
  let ?c = "os_component_scores res"
  have a: "0 \<le> cs_activity ?c" "cs_activity ?c \<le> 1"
    using activity_range[of db now pid 7] by (simp_all add: score_Inr(1)[OF assms])
  have g: "0 \<le> cs_community_growth ?c" "cs_community_growth ?c \<le> 1"
    using growth_range[of db now pid] by (simp_all add: score_Inr(2)[OF assms])
  have s: "0 \<le> cs_sentiment ?c" "cs_sentiment ?c \<le> 1"
    using sentiment_range[of db now pid] by (simp_all add: score_Inr(3)[OF assms])
  have u: "0 \<le> cs_urgency ?c" "cs_urgency ?c \<le> 1"
    using urgency_range[of db now pid] by (simp_all add: score_Inr(4)[OF assms])
  have r: "0 \<le> cs_roi_potential ?c" "cs_roi_potential ?c \<le> 1"
    using roi_range[of db now pid] by (simp_all add: score_Inr(5)[OF assms])
  have w: "0 \<le> os_opportunity_score res \<and> os_opportunity_score res \<le> 100"
    unfolding score_Inr(6)[OF assms] by (rule weighted_range[OF a g s u r])
  from a g s u r w show ?thesis by simp
qed

theorem component_scores_in_range_witness:
  "\<exists>res. calculate_opportunity_score no_history_db 0 1 = Inr res
         \<and> 0 \<le> os_opportunity_score res \<and> os_opportunity_score res \<le> 100"
proof -
  obtain res where r: "calculate_opportunity_score no_history_db 0 1 = Inr res"
    using no_history_scored by blast
  from component_scores_in_range[OF r] r show ?thesis by blast
qed

subsection \<open>The participation flag\<close>

text \<open>
  Claim C3. In the result of \<open>calculate_opportunity_score\<close> the flag
  \<open>worth_participating\<close> is true exactly when the opportunity score of the same result is
  at least 70; in particular a score of exactly 70 sets the flag.
\<close>

theorem worth_participating_iff:
  assumes "calculate_opportunity_score db now pid = Inr res"
  shows "(os_worth_participating res \<longleftrightarrow> 70 \<le> os_opportunity_score res)
       \<and> (os_opportunity_score res = 70 \<longrightarrow> os_worth_participating res)"
  using score_Inr(7)[OF assms] by simp

theorem worth_participating_iff_witness:
  "\<exists>res. calculate_opportunity_score no_history_db 0 1 = Inr res
         \<and> (os_worth_participating res \<longleftrightarrow> 70 \<le> os_opportunity_score res)"
proof -
  obtain res where r: "calculate_opportunity_score no_history_db 0 1 = Inr res"
    using no_history_scored by blast
  from worth_participating_iff[OF r] r show ?thesis by blast
qed

subsection \<open>A project without history\<close>

text \<open>
  Claim C1. For a project without any analyzed record in the last 14 days the sentiment
  score is 0.5 and the urgency score is 0, but the activity score and the community
  growth score are not 0: the counting queries return one row holding the count 0, so
  the guard for an empty result does not apply and the logistic function is evaluated at
  0 mentions, giving \<open>1 / (1 + exp 2)\<close> and \<open>1 / (1 + exp (3 / 2))\<close>.
\<close>

theorem zero_history_component_scores:
  assumes "\<forall>r\<in>set (analyzed_tbl db).
             ad_project_id r = pid \<longrightarrow> ad_analysis_timestamp r < days_ago now 14"
  shows "calculate_activity_score db now pid 7 = 1 / (1 + exp 2)
       \<and> calculate_activity_score db now pid 7 \<noteq> 0
       \<and> calculate_community_growth db now pid = 1 / (1 + exp (3 / 2))
       \<and> calculate_community_growth db now pid \<noteq> 0
       \<and> calculate_sentiment_score db now pid = 0.5
       \<and> calculate_urgency_score db now pid = 0"
proof -
  have w: "days_ago now 14 \<le> days_ago now 7" by (simp add: days_ago_def)
  have e14: "filter (\<lambda>r. ad_project_id r = pid \<and> days_ago now 14 \<le> ad_analysis_timestamp r \<and> P r)
               (analyzed_tbl db) = []" for P
    using assms by (fastforce simp: filter_empty_conv)
  have e7: "filter (\<lambda>r. ad_project_id r = pid \<and> days_ago now 7 \<le> ad_analysis_timestamp r \<and> P r)
               (analyzed_tbl db) = []" for P
    using assms w by (fastforce simp: filter_empty_conv)
  have a: "calculate_activity_score db now pid 7 = 1 / (1 + exp 2)"
    using e7[of "\<lambda>_. True"] by (simp add: calculate_activity_score_def query_mention_count_def)
  have g: "calculate_community_growth db now pid = 1 / (1 + exp (3 / 2))"
    using e7[of "\<lambda>_. True"] e14[of "\<lambda>r. ad_analysis_timestamp r < days_ago now 7"]
    by (simp add: calculate_community_growth_def query_mention_count_def
          query_previous_mentions_def)
  have s: "calculate_sentiment_score db now pid = 0.5"
    using e14[of "\<lambda>_. True"] by (simp add: calculate_sentiment_score_def query_contexts_def)
  have u: "calculate_urgency_score db now pid = 0"
    using e7[of "\<lambda>r. 1.3 \<le> ad_priority_score r"]
    by (simp add: calculate_urgency_score_def query_high_priority_def urgency_of_rows_def)
  have pos: "\<And>x::real. 1 / (1 + exp x) \<noteq> 0"
    using exp_gt_zero by (simp add: add_pos_pos less_imp_neq[THEN not_sym])
  show ?thesis using a g s u pos by simp
qed

theorem zero_history_component_scores_witness:
  "calculate_activity_score old_history_db 2000000 1 7 \<noteq> 0
   \<and> calculate_community_growth old_history_db 2000000 1 \<noteq> 0
   \<and> calculate_sentiment_score old_history_db 2000000 1 = 0.5
   \<and> calculate_urgency_score old_history_db 2000000 1 = 0"
proof -
  have h: "\<forall>r\<in>set (analyzed_tbl old_history_db).
             ad_project_id r = 1 \<longrightarrow> ad_analysis_timestamp r < days_ago 2000000 14"
    by (simp add: old_history_db_def days_ago_def)
  from zero_history_component_scores[OF h] show ?thesis by blast
qed

subsection \<open>Urgency reads the ten rows of highest priority\<close>

lemma filter_sorted_takeWhile:
  fixes f :: "'a \<Rightarrow> real"
  shows "sorted (map f S) \<Longrightarrow> filter (\<lambda>x. f x < k) S = takeWhile (\<lambda>x. f x < k) S"
proof (induction S)
  case Nil
  then show ?case by simp
next
  case (Cons a S)
  show ?case
  proof (cases "f a < k")
    case True
    with Cons show ?thesis by simp
  next
    case False
    from Cons.prems have "\<forall>x\<in>set S. f a \<le> f x" by simp
    with False have "\<forall>x\<in>set S. \<not> f x < k" by fastforce
    then have "filter (\<lambda>x. f x < k) S = []" by (simp add: filter_empty_conv)
    with False show ?thesis by simp
  qed
qed

lemma take_takeWhile_all:
  "n \<le> length S \<Longrightarrow> \<forall>x\<in>set (take n S). P x \<Longrightarrow> take n (takeWhile P S) = take n S"
proof (induction S arbitrary: n)
  case Nil
  then show ?case by simp
next
  case (Cons a S)
  then show ?case by (cases n) auto
qed

lemma takeWhile_length_ge:
  "n \<le> length S \<Longrightarrow> \<forall>x\<in>set (take n S). P x \<Longrightarrow> n \<le> length (takeWhile P S)"
proof (induction S arbitrary: n)
  case Nil
  then show ?case by simp
next
  case (Cons a S)
  then show ?case by (cases n) auto
qed

lemma take_of_takeWhile_prefix:
  "n \<le> length (takeWhile P S) \<Longrightarrow> take n (takeWhile P S) = take n S"
proof -
  assume h: "n \<le> length (takeWhile P S)"
  have "take n S = take n (takeWhile P S @ dropWhile P S)" by simp
  also have "\<dots> = take n (takeWhile P S)" using h by (simp del: takeWhile_dropWhile_id)
  finally show ?thesis by simp
qed

lemma top_n_insert_low:
  fixes f :: "'a \<Rightarrow> real"
  assumes len: "n \<le> length (xs @ ys)"
    and low: "\<forall>x\<in>set (take n (sort_key f (xs @ ys))). f x < f r"
  shows "take n (sort_key f (xs @ r # ys)) = take n (sort_key f (xs @ ys))"
proof -
  let ?P = "\<lambda>x. f x < f r"
  let ?S = "sort_key f (xs @ ys)"
  let ?S' = "sort_key f (xs @ r # ys)"
  have fl: "filter ?P (xs @ r # ys) = filter ?P (xs @ ys)" by simp
  have tw: "takeWhile ?P ?S' = takeWhile ?P ?S"
  proof -
    have "takeWhile ?P ?S' = filter ?P ?S'"
      by (rule filter_sorted_takeWhile[symmetric]) simp
    also have "\<dots> = sort_key f (filter ?P (xs @ r # ys))" by (rule filter_sort)
    also have "\<dots> = sort_key f (filter ?P (xs @ ys))" by (simp only: fl)
    also have "\<dots> = filter ?P ?S" by (rule filter_sort[symmetric])
    also have "\<dots> = takeWhile ?P ?S" by (rule filter_sorted_takeWhile) simp
    finally show ?thesis .
  qed
  have lenS: "n \<le> length ?S" using len by simp
  have ge: "n \<le> length (takeWhile ?P ?S)" by (rule takeWhile_length_ge[OF lenS low])
  have "take n ?S' = take n (takeWhile ?P ?S')"
    by (rule take_of_takeWhile_prefix[symmetric]) (simp add: tw ge)
  also have "\<dots> = take n (takeWhile ?P ?S)" by (simp only: tw)
  also have "\<dots> = take n ?S" by (rule take_takeWhile_all[OF lenS low])
  finally show ?thesis .
qed

lemma busy_top: "query_high_priority busy_db 1 (days_ago 0 7) = analyzed_tbl busy_db"
  by (simp add: query_high_priority_def busy_db_def urgent_row_def days_ago_def)

lemma busy_urgency: "calculate_urgency_score busy_db 0 1 = 1"
  by (simp add: calculate_urgency_score_def busy_top)
     (simp add: busy_db_def urgency_of_rows_def urgent_row_def is_time_sensitive_def)

text \<open>
  Claim C10. The urgency score is computed from the at most ten rows of highest priority
  among the project's rows of the last 7 days with priority at least 1.3. When ten such
  rows exist, a further row, stored anywhere in the table, whose priority is below that of
  each of the ten leaves the urgency score unchanged, and the score is still computed
  from at most ten rows.
\<close>

theorem urgency_ignores_rows_below_top10:
  assumes tbl: "analyzed_tbl db = xs @ ys"
    and full: "length (query_high_priority db pid (days_ago now 7)) = 10"
    and low: "\<forall>row\<in>set (query_high_priority db pid (days_ago now 7)).
                ad_priority_score r < ad_priority_score row"
  shows "calculate_urgency_score (db\<lparr>analyzed_tbl := xs @ r # ys\<rparr>) now pid
         = calculate_urgency_score db now pid
       \<and> length (query_high_priority (db\<lparr>analyzed_tbl := xs @ r # ys\<rparr>) pid (days_ago now 7))
           \<le> 10"
proof -
  define q where "q = (\<lambda>r::analyzed_data. ad_project_id r = pid \<and> days_ago now 7 \<le> ad_analysis_timestamp r
                        \<and> 1.3 \<le> ad_priority_score r)"
  define f where "f = (\<lambda>r::analyzed_data. - ad_priority_score r)"
  have q0: "query_high_priority db pid (days_ago now 7)
            = take 10 (sort_key f (filter q xs @ filter q ys))"
    by (simp add: query_high_priority_def tbl q_def f_def)
  have q1: "query_high_priority (db\<lparr>analyzed_tbl := xs @ r # ys\<rparr>) pid (days_ago now 7)
            = take 10 (sort_key f (filter q xs @ filter q (r # ys)))"
    by (simp add: query_high_priority_def q_def f_def)
  have "take 10 (sort_key f (filter q xs @ filter q (r # ys)))
        = take 10 (sort_key f (filter q xs @ filter q ys))"
  proof (cases "q r")
    case False
    then show ?thesis by simp
  next
    case True
    have len: "10 \<le> length (filter q xs @ filter q ys)"
      using full unfolding q0 by simp
    have low': "\<forall>x\<in>set (take 10 (sort_key f (filter q xs @ filter q ys))). f x < f r"
      using low unfolding q0 by (simp add: f_def)
    have "take 10 (sort_key f (filter q xs @ r # filter q ys))
          = take 10 (sort_key f (filter q xs @ filter q ys))"
      by (rule top_n_insert_low[OF len low'])
    with True show ?thesis by simp
  qed
  then have "calculate_urgency_score (db\<lparr>analyzed_tbl := xs @ r # ys\<rparr>) now pid
         = calculate_urgency_score db now pid"
    by (simp add: calculate_urgency_score_def q0 q1)
  moreover have "length (query_high_priority (db\<lparr>analyzed_tbl := xs @ r # ys\<rparr>) pid
                    (days_ago now 7)) \<le> 10"
    unfolding q1 by simp
  ultimately show ?thesis by (rule conjI)
qed

theorem urgency_ignores_rows_below_top10_witness:
  "length (query_high_priority busy_db 1 (days_ago 0 7)) = 10
   \<and> calculate_urgency_score (busy_db\<lparr>analyzed_tbl := analyzed_tbl busy_db @ [plain_row 1.5]\<rparr>) 0 1
     = calculate_urgency_score busy_db 0 1"
proof -
  have len: "length (query_high_priority busy_db 1 (days_ago 0 7)) = 10"
    by (simp add: busy_top) (simp add: busy_db_def)
  have low: "\<forall>row\<in>set (query_high_priority busy_db 1 (days_ago 0 7)).
               ad_priority_score (plain_row 1.5) < ad_priority_score row"
    by (simp add: busy_top) (simp add: busy_db_def urgent_row_def plain_row_def)
  have tbl: "analyzed_tbl busy_db = analyzed_tbl busy_db @ []" by simp
  from urgency_ignores_rows_below_top10[OF tbl len low] len show ?thesis by simp
qed

section \<open>Properties of the priority score\<close>

text \<open>The score is a product: the project multiplier, one factor per context indicator and
  per scoring category, and the source weight.\<close>

definition factor :: "bool \<Rightarrow> real \<Rightarrow> real" where
  "factor b m = (if b then m else 1)"

lemma times_if_factor: "times_if b m score = score * factor b m"
  by (simp add: times_if_def factor_def)

lemma priority_score_product:
  "calculate_priority_score a =
     project_multiplier (an_projects a)
     * (factor (''high_impact'' \<in> set (an_context a)) 1.3
        * factor (''time_sensitive'' \<in> set (an_context a)) 1.4
        * factor (''alpha'' \<in> set (an_context a)) 1.2
        * factor (''risk'' \<in> set (an_context a)) 1.5
        * factor (''opportunity'' \<in> set (an_context a)) 1.25)
     * (factor (''urgent_action'' \<in> set (an_categories a)) 1.5
        * factor (''active_investment'' \<in> set (an_categories a)) 1.3
        * factor (''project_launch'' \<in> set (an_categories a)) 1.25
        * factor (''upcoming_opportunity'' \<in> set (an_categories a)) 1.35)
     * an_source_weight a"
  unfolding calculate_priority_score_def Let_def times_if_factor
  by (simp only: mult.assoc mult_1)

lemma mult_ge_one: "1 \<le> a \<Longrightarrow> 1 \<le> b \<Longrightarrow> 1 \<le> a * (b::real)"
  using mult_mono[of 1 a 1 b] by simp

lemma factor_ge_1: "1 \<le> m \<Longrightarrow> 1 \<le> factor b m"
  by (simp add: factor_def)

lemma factor_mono: "1 \<le> m \<Longrightarrow> (b \<Longrightarrow> b') \<Longrightarrow> factor b m \<le> factor b' m"
  by (auto simp: factor_def)

lemma fold_max_tiers:
  fixes f :: "'a \<Rightarrow> real"
  assumes "\<forall>p\<in>set ps. f p = 1.5 \<or> f p = 1.2" "v = 1.5 \<or> v = 1.2"
  shows "fold max (map f ps) v = (if v = 1.5 \<or> (\<exists>p\<in>set ps. f p = 1.5) then 1.5 else 1.2)"
  using assms
proof (induction ps arbitrary: v)
  case Nil
  then show ?case by auto
next
  case (Cons p ps)
  have "max (f p) v = 1.5 \<or> max (f p) v = 1.2" using Cons.prems by auto
  moreover have "\<forall>q\<in>set ps. f q = 1.5 \<or> f q = 1.2" using Cons.prems by simp
  ultimately have "fold max (map f ps) (max (f p) v)
      = (if max (f p) v = 1.5 \<or> (\<exists>q\<in>set ps. f q = 1.5) then 1.5 else 1.2)"
    by (rule Cons.IH[rotated])
  moreover have "(max (f p) v = 1.5) = (f p = 1.5 \<or> v = 1.5)" using Cons.prems by auto
  ultimately show ?case by auto
qed

lemma project_multiplier_cases:
  "project_multiplier ps =
     (if \<exists>p\<in>set ps. mp_priority p = Some ''high_priority'' then 1.5
      else if \<exists>p\<in>set ps. mp_priority p \<noteq> None then 1.2
      else 1.0)"
proof (cases ps)
  case Nil
  then show ?thesis by (simp add: project_multiplier_def)
next
  case (Cons p qs)
  let ?f = "\<lambda>q. if mp_priority q = Some ''high_priority'' then 1.5 else (1.2::real)"
  have "fold max (map ?f qs) (?f p) = (if ?f p = 1.5 \<or> (\<exists>q\<in>set qs. ?f q = 1.5) then 1.5 else 1.2)"
    by (rule fold_max_tiers) auto
  then show ?thesis
    using Cons by (auto simp: project_multiplier_def max_project_score_def list_ex_iff)
qed

lemma project_multiplier_ge_1: "1 \<le> project_multiplier ps"
  by (simp add: project_multiplier_cases)

text \<open>
  Claim C4, as amended. The project multiplier is 1.5 when some matched project carries
  the priority \<open>high_priority\<close>, otherwise 1.2 when some matched project carries a
  priority at all, and otherwise 1.0: a non-empty list all of whose entries come from the
  channel match alone (such an entry has no priority) gets the multiplier 1.0. The score
  is the multiplier times the score of the same analysis without matched projects.
\<close>

theorem project_multiplier_by_priority:
  "project_multiplier (an_projects a) =
     (if \<exists>p\<in>set (an_projects a). mp_priority p = Some ''high_priority'' then 1.5
      else if \<exists>p\<in>set (an_projects a). mp_priority p \<noteq> None then 1.2
      else 1.0)
   \<and> calculate_priority_score a
       = project_multiplier (an_projects a) * calculate_priority_score (a\<lparr>an_projects := []\<rparr>)"
proof -
  have "project_multiplier (an_projects (a\<lparr>an_projects := []\<rparr>)) = 1"
    by (simp add: project_multiplier_def)
  then have "calculate_priority_score a
       = project_multiplier (an_projects a) * calculate_priority_score (a\<lparr>an_projects := []\<rparr>)"
    unfolding priority_score_product[of a] priority_score_product[of "a\<lparr>an_projects := []\<rparr>"]
    by simp
  then show ?thesis by (simp only: project_multiplier_cases[symmetric] simp_thms)
qed

lemma channel_only:
  "identify_projects channel_cfg ''gm'' (Some ''alpha_official'') =
     [\<lparr>mp_name = ''Alpha'', mp_priority = None, mp_confidence = 1, mp_source = ''channel''\<rparr>]"
  by code_simp

theorem project_multiplier_by_priority_witness:
  "project_multiplier (identify_projects channel_cfg ''gm alphanet'' None) = 1.5"
proof -
  have i: "identify_projects channel_cfg ''gm alphanet'' None =
     [\<lparr>mp_name = ''Alpha'', mp_priority = Some ''high_priority'', mp_confidence = 0.8,
       mp_source = ''keyword''\<rparr>]"
    by code_simp
  define a where "a = \<lparr>an_categories = [], an_context = [],
     an_projects = identify_projects channel_cfg ''gm alphanet'' None, an_source_weight = 1\<rparr>"
  have "an_projects a = identify_projects channel_cfg ''gm alphanet'' None" by (simp add: a_def)
  with project_multiplier_by_priority[of a] show ?thesis by (simp add: i)
qed

text \<open>The claim as stated fails: a message from the official channel of a tracked project
  that mentions none of its keywords matches the project through the channel only, and
  the multiplier applied is 1.0, not 1.2 (nor 1.5, although the project is of high
  priority).\<close>

theorem channel_only_match_multiplier:
  "identify_projects channel_cfg ''gm'' (Some ''alpha_official'') \<noteq> []
   \<and> project_multiplier (identify_projects channel_cfg ''gm'' (Some ''alpha_official'')) = 1
   \<and> calculate_priority_score
        \<lparr>an_categories = [], an_context = [],
         an_projects = identify_projects channel_cfg ''gm'' (Some ''alpha_official''),
         an_source_weight = get_source_weight channel_cfg ''general'' (Some ''alpha_official'')\<rparr> = 1"
proof -
  have w: "get_source_weight channel_cfg ''general'' (Some ''alpha_official'') = 1"
    by code_simp
  have m: "project_multiplier
             [\<lparr>mp_name = ''Alpha'', mp_priority = None, mp_confidence = 1, mp_source = ''channel''\<rparr>] = 1"
    by (simp add: project_multiplier_def max_project_score_def)
  show ?thesis
    unfolding channel_only w priority_score_product
    by (simp add: m factor_def)
qed

text \<open>
  Claim C8. With a positive source weight the priority score is positive, and adding a
  label to the matched context indicators or to the matched categories, everything else
  unchanged, does not decrease it.
\<close>

theorem priority_score_positive_monotone:
  assumes "0 < an_source_weight a"
  shows "0 < calculate_priority_score a
       \<and> calculate_priority_score a \<le> calculate_priority_score (a\<lparr>an_context := c # an_context a\<rparr>)
       \<and> calculate_priority_score a \<le> calculate_priority_score (a\<lparr>an_categories := c # an_categories a\<rparr>)"
proof -
  define P where "P = project_multiplier (an_projects a)"
  define X where "X = (\<lambda>l. factor (''high_impact'' \<in> set l) 1.3
        * factor (''time_sensitive'' \<in> set l) 1.4
        * factor (''alpha'' \<in> set l) 1.2
        * factor (''risk'' \<in> set l) 1.5
        * factor (''opportunity'' \<in> set l) 1.25)"
  define Y where "Y = (\<lambda>l. factor (''urgent_action'' \<in> set l) 1.5
        * factor (''active_investment'' \<in> set l) 1.3
        * factor (''project_launch'' \<in> set l) 1.25
        * factor (''upcoming_opportunity'' \<in> set l) 1.35)"
  define w where "w = an_source_weight a"
  have s0: "calculate_priority_score a = P * X (an_context a) * Y (an_categories a) * w"
    by (simp add: priority_score_product P_def X_def Y_def w_def)
  have s1: "calculate_priority_score (a\<lparr>an_context := c # an_context a\<rparr>)
            = P * X (c # an_context a) * Y (an_categories a) * w"
    by (simp add: priority_score_product P_def X_def Y_def w_def)
  have s2: "calculate_priority_score (a\<lparr>an_categories := c # an_categories a\<rparr>)
            = P * X (an_context a) * Y (c # an_categories a) * w"
    by (simp add: priority_score_product P_def X_def Y_def w_def)
  have P1: "1 \<le> P" by (simp add: P_def project_multiplier_ge_1)
  have X1: "1 \<le> X l" for l
    unfolding X_def by (intro mult_ge_one factor_ge_1) simp_all
  have Y1: "1 \<le> Y l" for l
    unfolding Y_def by (intro mult_ge_one factor_ge_1) simp_all
  have Xm: "X l \<le> X (c # l)" for l
    unfolding X_def
    by (intro mult_mono factor_mono mult_nonneg_nonneg order_trans[OF zero_le_one factor_ge_1]) simp_all
  have Ym: "Y l \<le> Y (c # l)" for l
    unfolding Y_def
    by (intro mult_mono factor_mono mult_nonneg_nonneg order_trans[OF zero_le_one factor_ge_1]) simp_all
  have w0: "0 < w" using assms by (simp add: w_def)
  have pos: "0 < P * X (an_context a) * Y (an_categories a) * w"
    using P1 X1[of "an_context a"] Y1[of "an_categories a"] w0
    by (intro mult_pos_pos) simp_all
  have m1: "P * X (an_context a) * Y (an_categories a) * w
            \<le> P * X (c # an_context a) * Y (an_categories a) * w"
    using P1 Xm[of "an_context a"] X1[of "an_context a"] Y1[of "an_categories a"] w0
    by (intro mult_mono mult_nonneg_nonneg) simp_all
  have m2: "P * X (an_context a) * Y (an_categories a) * w
            \<le> P * X (an_context a) * Y (c # an_categories a) * w"
    using P1 Ym[of "an_categories a"] X1[of "an_context a"] Y1[of "an_categories a"] w0
    by (intro mult_mono mult_nonneg_nonneg) simp_all
  show ?thesis using pos m1 m2 by (simp add: s0 s1 s2)
qed

theorem priority_score_positive_monotone_witness:
  "0 < calculate_priority_score
         \<lparr>an_categories = [''urgent_action''], an_context = [], an_projects = [],
          an_source_weight = 0.4\<rparr>
   \<and> calculate_priority_score
         \<lparr>an_categories = [''urgent_action''], an_context = [], an_projects = [],
          an_source_weight = 0.4\<rparr>
       \<le> calculate_priority_score
         \<lparr>an_categories = [''urgent_action''], an_context = [''risk''], an_projects = [],
          an_source_weight = 0.4\<rparr>"
  using priority_score_positive_monotone
          [of "\<lparr>an_categories = [''urgent_action''], an_context = [], an_projects = [],
                an_source_weight = 0.4\<rparr>" "''risk''"]
  by simp

section \<open>Properties of project identification\<close>

lemma match_lit_append: "match_lit l s = Some r \<Longrightarrow> s = l @ r"
  by (induction l s rule: match_lit.induct) (auto split: if_splits)

lemma match_url_suffix: "match_url s = Some r \<Longrightarrow> \<exists>pre. s = pre @ r"
proof -
  assume h: "match_url s = Some r"
  then obtain r1 where r1: "match_lit ''http'' s = Some r1"
    by (auto simp: match_url_def split: option.splits)
  define r2 where "r2 = (case r1 of c # r' \<Rightarrow> if c = CHR ''s'' then r' else r1 | [] \<Rightarrow> r1)"
  have e2: "\<exists>p. r1 = p @ r2"
    by (cases r1) (auto simp: r2_def)
  from h r1 obtain u where u: "match_lit ''://'' r2 = Some u"
    and r: "r = dropWhile (\<lambda>c. \<not> is_space c) u"
    by (auto simp: match_url_def r2_def split: option.splits if_splits)
  have "u = takeWhile (\<lambda>c. \<not> is_space c) u @ r" by (simp add: r)
  then have e3: "\<exists>p. u = p @ r" by blast
  from match_lit_append[OF r1] match_lit_append[OF u] e2 e3 show ?thesis
    by (metis append.assoc)
qed

lemma set_re_sub_urls: "set (re_sub_urls s) \<subseteq> set s"
proof (induction s rule: re_sub_urls.induct)
  case 1
  then show ?case by simp
next
  case (2 c cs)
  show ?case
  proof (cases "match_url (c # cs)")
    case None
    with 2 show ?thesis by auto
  next
    case (Some rest)
    then obtain pre where "c # cs = pre @ rest" using match_url_suffix by blast
    then have "set rest \<subseteq> set (c # cs)" by (metis set_append Un_upper2)
    with 2(2)[OF Some] Some show ?thesis by auto
  qed
qed

lemma set_re_sub_whitespace: "set (re_sub_whitespace s) \<subseteq> insert (CHR '' '') (set s)"
proof (induction s rule: re_sub_whitespace.induct)
  case 1
  then show ?case by simp
next
  case (2 c cs)
  have "set (dropWhile is_space cs) \<subseteq> set cs" by (rule set_dropWhileD[THEN subsetI])
  with 2 show ?case by auto
qed

lemma set_strip: "set (strip s) \<subseteq> set s"
proof -
  have "set (dropWhile is_space (rev (dropWhile is_space s))) \<subseteq> set (rev (dropWhile is_space s))"
    by (rule set_dropWhileD[THEN subsetI])
  moreover have "set (dropWhile is_space s) \<subseteq> set s" by (rule set_dropWhileD[THEN subsetI])
  ultimately show ?thesis by (auto simp: strip_def)
qed

lemma set_preprocess_text:
  "set (preprocess_text t) \<subseteq>
     insert (CHR '' '') (set (lower t) - {CHR ''$'', CHR ''#'', CHR ''@''})"
proof -
  let ?r = "replace_char (CHR ''@'') (CHR '' '')
              (replace_char (CHR ''#'') (CHR '' '') (replace_char (CHR ''$'') (CHR '' '') (lower t)))"
  have r: "set ?r \<subseteq> insert (CHR '' '') (set (lower t) - {CHR ''$'', CHR ''#'', CHR ''@''})"
    by (auto simp: replace_char_def)
  have "set (preprocess_text t) \<subseteq> insert (CHR '' '') (set (re_sub_urls ?r))"
    using set_strip[of "re_sub_whitespace (re_sub_urls ?r)"] set_re_sub_whitespace[of "re_sub_urls ?r"]
    by (auto simp: preprocess_text_def Let_def)
  also have "\<dots> \<subseteq> insert (CHR '' '') (set ?r)" using set_re_sub_urls[of ?r] by auto
  also have "\<dots> \<subseteq> insert (CHR '' '') (set (lower t) - {CHR ''$'', CHR ''#'', CHR ''@''})"
    using r by auto
  finally show ?thesis .
qed

lemma no_dollar_preprocess_text: "CHR ''$'' \<notin> set (preprocess_text t)"
  using set_preprocess_text[of t] by auto

lemma findall_symbol_without_dollar:
  "CHR ''$'' \<notin> set s \<Longrightarrow> findall_from match_symbol k s = []"
  by (induction match_symbol k s rule: findall_from.induct) (auto simp: match_symbol_def)

lemma set_dedupe_projects_aux:
  "set (fold (\<lambda>p unique. if list_ex (\<lambda>q. mp_name q = mp_name p) unique then unique else unique @ [p])
          ps acc) \<subseteq> set acc \<union> set ps"
proof (induction ps arbitrary: acc)
  case Nil
  then show ?case by simp
next
  case (Cons a ps)
  let ?f = "\<lambda>p unique. if list_ex (\<lambda>q. mp_name q = mp_name p) unique then unique else unique @ [p]"
  have 1: "set (fold ?f ps (?f a acc)) \<subseteq> set (?f a acc) \<union> set ps" by (rule Cons.IH)
  have 2: "set (?f a acc) \<subseteq> set acc \<union> {a}" by auto
  have 3: "fold ?f (a # ps) acc = fold ?f ps (?f a acc)" by simp
  from 1 2 show ?case unfolding 3 by auto
qed

lemma set_dedupe_projects: "set (dedupe_projects ps) \<subseteq> set ps"
  using set_dedupe_projects_aux[of ps "[]"] by (simp add: dedupe_projects_def)

text \<open>
  Claim C5. \<open>identify_projects\<close> looks for \<^verbatim>\<open>$XXXX\<close> tokens in the text it has already
  normalised, and normalisation replaces every dollar sign by a space (and lower-cases the
  letters): the symbol pattern never matches, no candidate of source \<open>symbol\<close> is ever
  returned, and the text \<^verbatim>\<open>$ABC airdrop\<close> yields no candidate although a tracked project
  has the symbol ABC.
\<close>

theorem symbol_match_never_fires:
  "findall match_symbol (preprocess_text text) = []
   \<and> filter (\<lambda>m. mp_source m = ''symbol'') (identify_projects cfg text channel) = []
   \<and> identify_projects symbol_cfg ''$ABC airdrop'' None = []"
proof -
  have f: "findall match_symbol (preprocess_text t) = []" for t
    by (simp add: findall_def findall_symbol_without_dollar no_dollar_preprocess_text)
  have "\<forall>m\<in>set (identify_projects cfg text channel). mp_source m \<noteq> ''symbol''"
  proof
    fix m assume "m \<in> set (identify_projects cfg text channel)"
    then show "mp_source m \<noteq> ''symbol''"
      unfolding identify_projects_def Let_def f
      by (auto dest!: set_dedupe_projects[THEN subsetD] split: option.splits if_splits)
  qed
  then have g: "filter (\<lambda>m. mp_source m = ''symbol'') (identify_projects cfg text channel) = []"
    by (simp add: filter_empty_conv)
  have "identify_projects symbol_cfg ''$ABC airdrop'' None = []"
    by code_simp
  with f g show ?thesis by simp
qed

section \<open>Properties of project discovery\<close>

lemma lower_append: "lower (a @ b) = lower a @ lower b"
  by (simp add: lower_def)

lemma set_dedupe_new_projects_aux:
  "set (fold (\<lambda>p unique. if list_ex (\<lambda>q. lower (np_name q) = lower (np_name p)) unique then unique
                           else unique @ [p]) ps acc) \<subseteq> set acc \<union> set ps"
proof (induction ps arbitrary: acc)
  case Nil
  then show ?case by simp
next
  case (Cons a ps)
  let ?f = "\<lambda>p unique. if list_ex (\<lambda>q. lower (np_name q) = lower (np_name p)) unique then unique
                           else unique @ [p]"
  have 1: "set (fold ?f ps (?f a acc)) \<subseteq> set (?f a acc) \<union> set ps" by (rule Cons.IH)
  have 2: "set (?f a acc) \<subseteq> set acc \<union> {a}" by auto
  have 3: "fold ?f (a # ps) acc = fold ?f ps (?f a acc)" by simp
  from 1 2 show ?case unfolding 3 by auto
qed

lemma set_dedupe_new_projects: "set (dedupe_new_projects ps) \<subseteq> set ps"
  using set_dedupe_new_projects_aux[of ps "[]"] by (simp add: dedupe_new_projects_def)

lemma detect_new_projects_member:
  assumes "p \<in> set (detect_new_projects cfg t)"
  shows "\<exists>pat\<in>set discovery_patterns. np_name p \<in> set (findall pat t)"
    and "np_confidence p = discovery_confidence t (np_name p)"
    and "\<not> is_known_project cfg (np_name p)"
proof -
  from assms set_dedupe_new_projects
  have "p \<in> set (concat
          (map (\<lambda>pat.
                  map (\<lambda>m. \<lparr>np_name = m, np_confidence = discovery_confidence t m,
                             np_source = ''discovery''\<rparr>)
                    (filter (\<lambda>m. \<not> is_known_project cfg m) (findall pat t)))
             discovery_patterns))"
    unfolding detect_new_projects_def by blast
  then obtain pat m where pat: "pat \<in> set discovery_patterns"
    and m: "m \<in> set (findall pat t)" "\<not> is_known_project cfg m"
    and p: "p = \<lparr>np_name = m, np_confidence = discovery_confidence t m, np_source = ''discovery''\<rparr>"
    by auto
  show "\<exists>pat\<in>set discovery_patterns. np_name p \<in> set (findall pat t)"
    using pat m p by auto
  show "np_confidence p = discovery_confidence t (np_name p)" using p by simp
  show "\<not> is_known_project cfg (np_name p)" using m p by simp
qed

lemma findall_from_match:
  "g \<in> set (findall_from pat k s) \<Longrightarrow> \<exists>pre u n. s = pre @ u \<and> pat u = Some (g, n)"
proof (induction pat k s rule: findall_from.induct)
  case (1 pat k)
  then show ?case by simp
next
  case (2 pat k c cs)
  then obtain pre u n where "cs = pre @ u" "pat u = Some (g, n)" by auto
  then have "c # cs = (c # pre) @ u" by simp
  then show ?case using \<open>pat u = Some (g, n)\<close> by blast
next
  case (3 pat c cs)
  show ?case
  proof (cases "pat (c # cs)")
    case None
    with 3 obtain pre u n where "cs = pre @ u" "pat u = Some (g, n)" by auto
    then have "c # cs = (c # pre) @ u" by simp
    then show ?thesis using \<open>pat u = Some (g, n)\<close> by blast
  next
    case (Some a)
    obtain g' n' where a: "a = (g', n')" by (cases a)
    show ?thesis
    proof (cases "g = g'")
      case True
      have "c # cs = [] @ (c # cs)" by simp
      then show ?thesis using Some a True by blast
    next
      case False
      with 3(3) Some a have "g \<in> set (findall_from pat (n' - 1) cs)" by simp
      with 3(2)[OF Some a[symmetric]] obtain pre u n where "cs = pre @ u" "pat u = Some (g, n)"
        by auto
      then have "c # cs = (c # pre) @ u" by simp
      then show ?thesis using \<open>pat u = Some (g, n)\<close> by blast
    qed
  qed
qed

lemma match_lit_ci_lower: "match_lit_ci l s = Some r \<Longrightarrow> lower s = l @ lower r"
  by (induction l s rule: match_lit_ci.induct) (auto simp: lower_def split: if_splits)

lemma match_name_after_sublist:
  assumes "match_name_after lit u = Some (g, n)"
  shows "sublist lit (lower u)"
proof -
  from assms obtain r where "match_lit_ci lit u = Some r"
    by (auto simp: match_name_after_def split: option.splits)
  then have "lower u = lit @ lower r" by (rule match_lit_ci_lower)
  then show ?thesis by simp
qed

lemma match_name_before_sublist:
  assumes "match_name_before lit u = Some (g, n)"
  shows "sublist lit (lower u)"
proof -
  from assms obtain r where "match_lit_ci lit (dropWhile is_name_char u) = Some r"
    by (auto simp: match_name_before_def Let_def split: option.splits if_splits)
  then have "lower (dropWhile is_name_char u) = lit @ lower r" by (rule match_lit_ci_lower)
  moreover have "lower u = lower (takeWhile is_name_char u) @ lower (dropWhile is_name_char u)"
    by (simp add: lower_append[symmetric])
  ultimately have "lower u = lower (takeWhile is_name_char u) @ lit @ lower r" by simp
  then show ?thesis by (metis sublist_appendI)
qed

lemma match_symbol_launch_sublist:
  assumes "match_symbol_launch u = Some (g, n)"
  shows "sublist '' launch'' (lower u)"
proof -
  let ?P = "\<lambda>c. is_upper_az c \<or> is_lower_az c"
  from assms obtain c cs where u: "u = c # cs" 
    by (cases u) (auto simp: match_symbol_launch_def)
  from assms u obtain r where "match_lit_ci '' launch'' (dropWhile ?P cs) = Some r"
    by (auto simp: match_symbol_launch_def Let_def split: option.splits if_splits)
  then have "lower (dropWhile ?P cs) = '' launch'' @ lower r" by (rule match_lit_ci_lower)
  moreover have "lower u = lower (c # takeWhile ?P cs) @ lower (dropWhile ?P cs)"
    unfolding lower_append[symmetric] u by simp
  ultimately have "lower u = lower (c # takeWhile ?P cs) @ '' launch'' @ lower r" by simp
  then show ?thesis by (metis sublist_appendI)
qed

lemma sublist_trans: "sublist a b \<Longrightarrow> sublist b c \<Longrightarrow> sublist a c"
  by (rule sublist_order.order_trans)

lemma pattern_has_signal_word:
  assumes "pat \<in> set discovery_patterns" "pat u = Some (g, n)"
  shows "\<exists>kw\<in>set nearby_keywords. sublist kw (lower u)"
proof -
  have k1: "sublist ''project'' ''new project''" by code_simp
  have k2: "sublist ''project'' ''upcoming project''" by code_simp
  have k3: "sublist ''launch'' '' is launching''" by code_simp
  have k4: "sublist ''launch'' '' token launch''" by code_simp
  have k5: "sublist ''airdrop'' '' airdrop''" by code_simp
  have k6: "sublist ''launch'' '' launch''" by code_simp
  from assms(1) consider
      "pat = match_name_after ''new project''" | "pat = match_name_after ''upcoming project''"
    | "pat = match_name_before '' is launching''" | "pat = match_name_before '' token launch''"
    | "pat = match_name_before '' airdrop''" | "pat = match_symbol_launch"
    by (auto simp: discovery_patterns_def)
  then have "sublist ''project'' (lower u) \<or> sublist ''launch'' (lower u) \<or> sublist ''airdrop'' (lower u)"
  proof cases
    case 1
    with assms(2) show ?thesis using sublist_trans[OF k1 match_name_after_sublist] by blast
  next
    case 2
    with assms(2) show ?thesis using sublist_trans[OF k2 match_name_after_sublist] by blast
  next
    case 3
    with assms(2) show ?thesis using sublist_trans[OF k3 match_name_before_sublist] by blast
  next
    case 4
    with assms(2) show ?thesis using sublist_trans[OF k4 match_name_before_sublist] by blast
  next
    case 5
    with assms(2) show ?thesis using sublist_trans[OF k5 match_name_before_sublist] by blast
  next
    case 6
    with assms(2) show ?thesis using sublist_trans[OF k6 match_symbol_launch_sublist] by blast
  qed
  then show ?thesis by (auto simp: nearby_keywords_def)
qed

lemma discovered_has_signal_word:
  assumes "p \<in> set (detect_new_projects cfg t)"
  shows "1 \<le> length (filter (\<lambda>keyword. sublist keyword (lower t)) nearby_keywords)"
proof -
  from detect_new_projects_member(1)[OF assms] obtain pat
    where pat: "pat \<in> set discovery_patterns" and "np_name p \<in> set (findall pat t)" by blast
  then obtain pre u n where t: "t = pre @ u" and m: "pat u = Some (np_name p, n)"
    unfolding findall_def using findall_from_match by blast
  from pattern_has_signal_word[OF pat m] obtain kw
    where kw: "kw \<in> set nearby_keywords" "sublist kw (lower u)" by blast
  have "sublist (lower u) (lower t)" by (simp add: t lower_append)
  with kw have "sublist kw (lower t)" using sublist_trans by blast
  with kw(1) have "kw \<in> set (filter (\<lambda>keyword. sublist keyword (lower t)) nearby_keywords)" by simp
  then have "0 < length (filter (\<lambda>keyword. sublist keyword (lower t)) nearby_keywords)"
    by (rule length_pos_if_in_set)
  then show ?thesis by linarith
qed

lemma single_mention: "detect_new_projects channel_cfg ''foo airdrop'' =
   [\<lparr>np_name = ''foo'', np_confidence = 0.64, np_source = ''discovery''\<rparr>]"
  by code_simp

lemma single_mention_facts:
  "str_count (lower ''foo airdrop'') (lower ''foo'') = 1
   \<and> concat (map (\<lambda>pat. findall pat ''foo airdrop'') discovery_patterns) = [''foo'']"
  by code_simp

lemma double_mention: "detect_new_projects channel_cfg ''foo airdrop foo'' =
   [\<lparr>np_name = ''foo'', np_confidence = 0.74, np_source = ''discovery''\<rparr>]
   \<and> str_count (lower ''foo airdrop foo'') (lower ''foo'') = 2
   \<and> length (filter (\<lambda>keyword. sublist keyword (lower ''foo airdrop foo'')) nearby_keywords) = 1"
  by code_simp

text \<open>
  Claim C6, as amended. A discovered name that occurs once in the text gets the confidence
  0.6 plus 0.04 for each signal word (launch, token, project, airdrop, whitelist) present
  in the text, capped at 0.2. Every discovery pattern contains a signal word, so at least
  one is present whenever a name is discovered and the confidence is at least 0.64; it is
  0.64 for a single mention with no other signal word.
\<close>

theorem single_mention_confidence:
  assumes "p \<in> set (detect_new_projects cfg t)"
    and "str_count (lower t) (lower (np_name p)) = 1"
  shows "np_confidence p
           = 0.6 + min 0.2 (real (length (filter (\<lambda>keyword. sublist keyword (lower t)) nearby_keywords)) * 0.04)
       \<and> 1 \<le> length (filter (\<lambda>keyword. sublist keyword (lower t)) nearby_keywords)
       \<and> 0.64 \<le> np_confidence p"
proof -
  define k where "k = length (filter (\<lambda>keyword. sublist keyword (lower t)) nearby_keywords)"
  have c: "np_confidence p = 0.6 + min 0.2 (real k * 0.04)"
    using assms(2) by (simp add: detect_new_projects_member(2)[OF assms(1)] discovery_confidence_def Let_def k_def)
  have k1: "1 \<le> k" unfolding k_def by (rule discovered_has_signal_word[OF assms(1)])
  then have "1 \<le> real k" by simp
  then have "0.04 \<le> min 0.2 (real k * 0.04)" by simp
  with c k1 show ?thesis unfolding k_def by simp
qed

theorem single_mention_confidence_witness:
  "np_confidence (hd (detect_new_projects channel_cfg ''foo airdrop'')) = 0.64
   \<and> 0.64 \<le> np_confidence (hd (detect_new_projects channel_cfg ''foo airdrop''))"
proof -
  define p where "p = \<lparr>np_name = ''foo'', np_confidence = 0.64, np_source = ''discovery''\<rparr>"
  have m: "p \<in> set (detect_new_projects channel_cfg ''foo airdrop'')"
    by (simp add: single_mention p_def)
  have c: "str_count (lower ''foo airdrop'') (lower (np_name p)) = 1"
    using single_mention_facts by (simp add: p_def)
  from single_mention_confidence[OF m c] have "0.64 \<le> np_confidence p" by blast
  then show ?thesis by (simp add: single_mention p_def)
qed

text \<open>The claim as stated fails: in \<^verbatim>\<open>foo airdrop\<close> the name \<open>foo\<close> is untracked, occurs once
  and is matched by one pattern only, and its confidence is 0.64, not 0.6.\<close>

theorem single_mention_not_base_confidence:
  "detect_new_projects channel_cfg ''foo airdrop''
     = [\<lparr>np_name = ''foo'', np_confidence = 0.64, np_source = ''discovery''\<rparr>]
   \<and> str_count (lower ''foo airdrop'') (lower ''foo'') = 1
   \<and> concat (map (\<lambda>pat. findall pat ''foo airdrop'') discovery_patterns) = [''foo'']
   \<and> np_confidence (hd (detect_new_projects channel_cfg ''foo airdrop'')) \<noteq> 0.6"
  using single_mention_facts by (simp add: single_mention)

text \<open>
  Claim C7, as amended. The confidence of a discovered name is 0.6, plus, when the name
  occurs more than once, 0.05 times the number of all its occurrences (the first
  included) capped at 0.2, plus 0.04 times the number of signal words present in the text
  capped at 0.2.
\<close>

theorem discovery_confidence_formula:
  assumes "p \<in> set (detect_new_projects cfg t)"
  shows "np_confidence p
           = 0.6
             + (if 1 < str_count (lower t) (lower (np_name p))
                then min 0.2 (real (str_count (lower t) (lower (np_name p))) * 0.05) else 0)
             + min 0.2 (real (length (filter (\<lambda>keyword. sublist keyword (lower t)) nearby_keywords)) * 0.04)"
  by (simp add: detect_new_projects_member(2)[OF assms] discovery_confidence_def Let_def)

theorem discovery_confidence_formula_witness:
  "np_confidence (hd (detect_new_projects channel_cfg ''foo airdrop foo'')) = 0.6 + 0.1 + 0.04"
proof -
  define p where "p = \<lparr>np_name = ''foo'', np_confidence = 0.74, np_source = ''discovery''\<rparr>"
  have m: "p \<in> set (detect_new_projects channel_cfg ''foo airdrop foo'')"
    using double_mention by (simp add: p_def)
  have c: "str_count (lower ''foo airdrop foo'') (lower (np_name p)) = 2"
    using double_mention by (simp add: p_def)
  have k: "length (filter (\<lambda>keyword. sublist keyword (lower ''foo airdrop foo'')) nearby_keywords) = 1"
    using double_mention by blast
  from discovery_confidence_formula[OF m] have "np_confidence p = 0.6 + 0.1 + 0.04"
    unfolding c k by simp
  moreover have "hd (detect_new_projects channel_cfg ''foo airdrop foo'') = p"
    using double_mention by (simp add: p_def)
  ultimately show ?thesis by simp
qed

text \<open>The claim as stated fails: in \<^verbatim>\<open>foo airdrop foo\<close> the name occurs twice, one mention
  beyond the first, and one signal word is present; the specification's formula gives
  0.69, the code 0.74.\<close>

theorem repeated_mention_boost_counts_all_mentions:
  "str_count (lower ''foo airdrop foo'') (lower ''foo'') = 2
   \<and> length (filter (\<lambda>keyword. sublist keyword (lower ''foo airdrop foo'')) nearby_keywords) = 1
   \<and> np_confidence (hd (detect_new_projects channel_cfg ''foo airdrop foo'')) = 0.74
   \<and> spec_discovery_confidence (2 - 1) 1 = 0.69
   \<and> np_confidence (hd (detect_new_projects channel_cfg ''foo airdrop foo''))
       \<noteq> spec_discovery_confidence (2 - 1) 1"
  using double_mention by (simp add: spec_discovery_confidence_def)

section \<open>Properties of text normalisation\<close>

text \<open>The shape of a normalised text: \<open>tok\<close> is the run of characters up to the first
  white space, \<open>url_free\<close> says that the URL pattern matches at no position, \<open>ws_nf\<close>
  that every white space character is a single blank between two other characters or at
  an end of the text.\<close>

definition tok :: "string \<Rightarrow> string" where
  "tok s = takeWhile (\<lambda>c. \<not> is_space c) s"

fun url_free :: "string \<Rightarrow> bool" where
  "url_free [] = True"
| "url_free (c # cs) = (match_url (c # cs) = None \<and> url_free cs)"

fun ws_nf :: "string \<Rightarrow> bool" where
  "ws_nf [] = True"
| "ws_nf [c] = (is_space c \<longrightarrow> c = CHR '' '')"
| "ws_nf (c # d # cs) = ((is_space c \<longrightarrow> c = CHR '' '' \<and> \<not> is_space d) \<and> ws_nf (d # cs))"

lemma preprocess_text_example: "preprocess_text ''Join  $ABC now: https://t.me/abc #Airdrop @team '' = ''join abc now: airdrop team''"
  by code_simp

lemma lower_char_idem: "lower_char (lower_char c) = lower_char c"
proof -
  define n where "n = (of_char c :: nat)"
  have n: "n < 256" unfolding n_def by simp
  show ?thesis
  proof (cases "(65 \<le> n \<and> n \<le> 90) \<or> (192 \<le> n \<and> n \<le> 222 \<and> n \<noteq> 215)")
    case False
    then have "lower_char c = c" unfolding lower_char_def Let_def n_def by auto
    then show ?thesis by simp
  next
    case True
    then have l: "lower_char c = char_of (n + 32)" by (simp add: lower_char_def n_def Let_def)
    from True have "(of_char (char_of (n + 32)) :: nat) = n + 32" by auto
    with True have "lower_char (char_of (n + 32)) = char_of (n + 32)"
      by (auto simp add: lower_char_def Let_def simp del: of_char_of)
    with l show ?thesis by simp
  qed
qed

lemma lower_char_space: "lower_char (CHR '' '') = CHR '' ''"
  by (simp add: lower_char_def)

lemma match_lit_iff: "match_lit l s = Some r \<longleftrightarrow> s = l @ r"
  by (induction l s rule: match_lit.induct) auto

lemma match_url_iff:
  "match_url s \<noteq> None \<longleftrightarrow>
     (\<exists>x z. \<not> is_space x \<and> (s = ''http://'' @ x # z \<or> s = ''https://'' @ x # z))"
proof
  assume "match_url s \<noteq> None"
  then obtain r1 where r1: "match_lit ''http'' s = Some r1"
    by (auto simp: match_url_def split: option.splits)
  define r2 where "r2 = (case r1 of c # r' \<Rightarrow> if c = CHR ''s'' then r' else r1 | [] \<Rightarrow> r1)"
  from \<open>match_url s \<noteq> None\<close> r1 obtain u where u: "match_lit ''://'' r2 = Some u"
    and ne: "takeWhile (\<lambda>c. \<not> is_space c) u \<noteq> []"
    by (auto simp: match_url_def r2_def split: option.splits if_splits)
  from ne obtain x z where xz: "u = x # z" "\<not> is_space x"
    by (cases u) (auto split: if_splits)
  have s: "s = ''http'' @ r1" using r1 by (simp add: match_lit_iff)
  have r2e: "r2 = ''://'' @ u" using u by (simp add: match_lit_iff)
  have "r1 = r2 \<or> r1 = CHR ''s'' # r2"
    by (cases r1) (auto simp: r2_def)
  then show "\<exists>x z. \<not> is_space x \<and> (s = ''http://'' @ x # z \<or> s = ''https://'' @ x # z)"
    using s r2e xz by auto
next
  assume "\<exists>x z. \<not> is_space x \<and> (s = ''http://'' @ x # z \<or> s = ''https://'' @ x # z)"
  then obtain x z where x: "\<not> is_space x"
    and s: "s = ''http://'' @ x # z \<or> s = ''https://'' @ x # z" by blast
  from s show "match_url s \<noteq> None"
  proof
    assume "s = ''http://'' @ x # z"
    then show ?thesis using x by (simp add: match_url_def)
  next
    assume "s = ''https://'' @ x # z"
    then show ?thesis using x by (simp add: match_url_def)
  qed
qed

lemma match_url_prefix_mono:
  assumes "prefix w w'" "match_url w \<noteq> None"
  shows "match_url w' \<noteq> None"
proof -
  from assms(1) obtain y where y: "w' = w @ y" by (auto simp: prefix_def)
  from assms(2) obtain x z where "\<not> is_space x"
    "w = ''http://'' @ x # z \<or> w = ''https://'' @ x # z"
    unfolding match_url_iff by blast
  then have "\<not> is_space x \<and> (w' = ''http://'' @ x # (z @ y) \<or> w' = ''https://'' @ x # (z @ y))"
    using y by auto
  then show ?thesis unfolding match_url_iff by blast
qed

lemma prefix_tok: "prefix (tok s) s"
  unfolding tok_def by (metis prefixI takeWhile_dropWhile_id)

lemma match_url_tok: "match_url (tok s) = None \<longleftrightarrow> match_url s = None"
proof -
  have "match_url s \<noteq> None \<Longrightarrow> match_url (tok s) \<noteq> None"
  proof -
    assume "match_url s \<noteq> None"
    then obtain x z where x: "\<not> is_space x"
      and s: "s = ''http://'' @ x # z \<or> s = ''https://'' @ x # z"
      unfolding match_url_iff by blast
    from s have "tok s = ''http://'' @ x # tok z \<or> tok s = ''https://'' @ x # tok z"
      using x by (auto simp: tok_def is_space_def)
    with x show ?thesis unfolding match_url_iff by blast
  qed
  moreover have "match_url (tok s) \<noteq> None \<Longrightarrow> match_url s \<noteq> None"
    using match_url_prefix_mono[OF prefix_tok] .
  ultimately show ?thesis by blast
qed

lemma match_url_space: "is_space c \<Longrightarrow> match_url (c # cs) = None"
proof -
  assume "is_space c"
  then have "tok (c # cs) = []" by (simp add: tok_def)
  moreover have "match_url [] = None" by (simp add: match_url_def)
  ultimately show ?thesis using match_url_tok[of "c # cs"] by simp
qed

lemma match_url_rest: "match_url s = Some rest \<Longrightarrow> rest = [] \<or> is_space (hd rest)"
proof -
  assume "match_url s = Some rest"
  then obtain u where "rest = dropWhile (\<lambda>c. \<not> is_space c) u"
    by (auto simp: match_url_def split: option.splits if_splits)
  then show ?thesis using hd_dropWhile[of "\<lambda>c. \<not> is_space c" u] by auto
qed

lemma tok_re_sub_urls_rest:
  assumes "rest = [] \<or> is_space (hd rest)"
  shows "tok (re_sub_urls rest) = []"
proof (cases rest)
  case Nil
  then show ?thesis by (simp add: tok_def)
next
  case (Cons c cs)
  with assms have c: "is_space c" by simp
  then have "re_sub_urls (c # cs) = c # re_sub_urls cs" by (simp add: match_url_space)
  with c Cons show ?thesis by (simp add: tok_def del: re_sub_urls.simps)
qed

lemma tok_re_sub_urls: "prefix (tok (re_sub_urls s)) (tok s)"
proof (induction s rule: re_sub_urls.induct)
  case 1
  then show ?case by simp
next
  case (2 c cs)
  show ?case
  proof (cases "match_url (c # cs)")
    case (Some rest)
    then have "tok (re_sub_urls (c # cs)) = []"
      using tok_re_sub_urls_rest[OF match_url_rest[OF Some]] by simp
    then show ?thesis by simp
  next
    case None
    then have e: "re_sub_urls (c # cs) = c # re_sub_urls cs" by simp
    show ?thesis
    proof (cases "is_space c")
      case True
      then show ?thesis unfolding e by (simp add: tok_def)
    next
      case False
      with 2(1)[OF None] show ?thesis unfolding e by (simp add: tok_def)
    qed
  qed
qed

lemma url_free_re_sub_urls: "url_free (re_sub_urls s)"
proof (induction s rule: re_sub_urls.induct)
  case 1
  then show ?case by simp
next
  case (2 c cs)
  show ?case
  proof (cases "match_url (c # cs)")
    case (Some rest)
    with 2(2)[OF Some] show ?thesis by simp
  next
    case None
    then have e: "re_sub_urls (c # cs) = c # re_sub_urls cs" by simp
    have "match_url (c # re_sub_urls cs) = None"
    proof (rule ccontr)
      assume "match_url (c # re_sub_urls cs) \<noteq> None"
      then have "match_url (tok (re_sub_urls (c # cs))) \<noteq> None"
        unfolding e by (simp add: match_url_tok)
      then have "match_url (tok (c # cs)) \<noteq> None"
        using match_url_prefix_mono[OF tok_re_sub_urls] by blast
      then show False using None by (simp add: match_url_tok)
    qed
    with 2(1)[OF None] show ?thesis unfolding e by simp
  qed
qed

lemma url_free_fixed: "url_free t \<Longrightarrow> re_sub_urls t = t"
  by (induction t) auto

lemma url_free_dropWhile: "url_free s \<Longrightarrow> url_free (dropWhile P s)"
  by (induction s) auto

lemma tok_re_sub_whitespace: "tok (re_sub_whitespace s) = tok s"
  by (induction s rule: re_sub_whitespace.induct) (auto simp: tok_def is_space_def)

lemma match_url_cong_tok: "tok a = tok b \<Longrightarrow> match_url a = None \<longleftrightarrow> match_url b = None"
  using match_url_tok[of a] match_url_tok[of b] by simp

lemma url_free_re_sub_whitespace: "url_free s \<Longrightarrow> url_free (re_sub_whitespace s)"
proof (induction s rule: re_sub_whitespace.induct)
  case 1
  then show ?case by simp
next
  case (2 c cs)
  show ?case
  proof (cases "is_space c")
    case True
    have sp: "is_space (CHR '' '')" by (simp add: is_space_def)
    from 2(3) have "url_free (dropWhile is_space cs)" by (simp add: url_free_dropWhile)
    with 2(1)[OF True] True show ?thesis by (simp add: match_url_space[OF sp])
  next
    case False
    have "tok (c # re_sub_whitespace cs) = tok (c # cs)"
      using tok_re_sub_whitespace[of cs] False by (simp add: tok_def)
    then have "match_url (c # re_sub_whitespace cs) = None \<longleftrightarrow> match_url (c # cs) = None"
      by (rule match_url_cong_tok)
    with 2(2)[OF False] 2(3) False show ?thesis by simp
  qed
qed

lemma tok_append_spaces:
  assumes "\<forall>c\<in>set z. is_space c"
  shows "tok (b @ z) = tok b"
proof -
  have "takeWhile (\<lambda>c. \<not> is_space c) z = []" using assms by (cases z) auto
  then show ?thesis unfolding tok_def by (induction b) simp_all
qed

lemma url_free_drop_trailing:
  assumes "\<forall>c\<in>set z. is_space c"
  shows "url_free (b @ z) \<Longrightarrow> url_free b"
proof (induction b)
  case Nil
  then show ?case by simp
next
  case (Cons c b)
  have "tok ((c # b) @ z) = tok (c # b)" by (rule tok_append_spaces[OF assms])
  then have "match_url ((c # b) @ z) = None \<longleftrightarrow> match_url (c # b) = None"
    by (rule match_url_cong_tok)
  with Cons show ?case by simp
qed

lemma strip_decomp:
  "\<exists>z. dropWhile is_space s = strip s @ z \<and> (\<forall>c\<in>set z. is_space c)"
proof -
  let ?a = "dropWhile is_space s"
  have "rev ?a = takeWhile is_space (rev ?a) @ dropWhile is_space (rev ?a)" by simp
  then have "?a = rev (dropWhile is_space (rev ?a)) @ rev (takeWhile is_space (rev ?a))"
    by (metis rev_append rev_rev_ident)
  moreover have "\<forall>c\<in>set (rev (takeWhile is_space (rev ?a))). is_space c"
    by (auto dest: set_takeWhileD)
  ultimately show ?thesis unfolding strip_def by blast
qed

lemma url_free_strip: "url_free s \<Longrightarrow> url_free (strip s)"
proof -
  assume "url_free s"
  then have a: "url_free (dropWhile is_space s)" by (rule url_free_dropWhile)
  obtain z where z: "dropWhile is_space s = strip s @ z" "\<forall>c\<in>set z. is_space c"
    using strip_decomp by blast
  from a show ?thesis unfolding z(1) by (rule url_free_drop_trailing[OF z(2)])
qed

lemma ws_nf_Cons_nonspace: "\<not> is_space c \<Longrightarrow> ws_nf (c # l) = ws_nf l"
  by (cases l) simp_all

lemma ws_nf_Cons_space:
  "ws_nf (CHR '' '' # l) = ((l = [] \<or> \<not> is_space (hd l)) \<and> ws_nf l)"
  by (cases l) (simp_all add: is_space_def)

lemma ws_nf_tl: "ws_nf (c # l) \<Longrightarrow> ws_nf l"
  by (cases l) simp_all

lemma hd_re_sub_whitespace:
  "s \<noteq> [] \<Longrightarrow> \<not> is_space (hd s) \<Longrightarrow> re_sub_whitespace s \<noteq> [] \<and> hd (re_sub_whitespace s) = hd s"
  by (cases s) simp_all

lemma ws_nf_re_sub_whitespace: "ws_nf (re_sub_whitespace s)"
proof (induction s rule: re_sub_whitespace.induct)
  case 1
  then show ?case by simp
next
  case (2 c cs)
  show ?case
  proof (cases "is_space c")
    case True
    define z where "z = dropWhile is_space cs"
    have h: "z = [] \<or> \<not> is_space (hd z)"
      unfolding z_def using hd_dropWhile[of is_space cs] by blast
    have "re_sub_whitespace z = [] \<or> \<not> is_space (hd (re_sub_whitespace z))"
    proof (cases "z = []")
      case True
      then show ?thesis by simp
    next
      case False
      with h hd_re_sub_whitespace[of z] show ?thesis by simp
    qed
    moreover have "ws_nf (re_sub_whitespace z)" unfolding z_def by (rule 2(1)[OF True])
    moreover have "re_sub_whitespace (c # cs) = CHR '' '' # re_sub_whitespace z"
      using True by (simp add: z_def)
    ultimately show ?thesis by (simp only: ws_nf_Cons_space simp_thms)
  next
    case False
    with 2(2)[OF False] show ?thesis by (simp add: ws_nf_Cons_nonspace)
  qed
qed

lemma ws_nf_fixed: "ws_nf t \<Longrightarrow> re_sub_whitespace t = t"
proof (induction t rule: ws_nf.induct)
  case 1
  then show ?case by simp
next
  case (2 c)
  then show ?case by simp
next
  case (3 c d cs)
  then show ?case by auto
qed

lemma ws_nf_dropWhile: "ws_nf s \<Longrightarrow> ws_nf (dropWhile P s)"
proof (induction s)
  case Nil
  then show ?case by simp
next
  case (Cons c s)
  then show ?case using ws_nf_tl[of c s] by simp
qed

lemma ws_nf_prefix: "ws_nf (b @ z) \<Longrightarrow> ws_nf b"
proof (induction b rule: ws_nf.induct)
  case 1
  then show ?case by simp
next
  case (2 c)
  then show ?case by (cases z) simp_all
next
  case (3 c d cs)
  then show ?case by simp
qed

lemma ws_nf_strip: "ws_nf s \<Longrightarrow> ws_nf (strip s)"
proof -
  assume "ws_nf s"
  then have a: "ws_nf (dropWhile is_space s)" by (rule ws_nf_dropWhile)
  obtain z where z: "dropWhile is_space s = strip s @ z"
    using strip_decomp by blast
  from a show ?thesis unfolding z by (rule ws_nf_prefix)
qed

lemma dropWhile_fixed: "s = [] \<or> \<not> P (hd s) \<Longrightarrow> dropWhile P s = s"
  by (cases s) auto

lemma strip_idem: "strip (strip s) = strip s"
proof -
  define a where "a = dropWhile is_space s"
  define b where "b = strip s"
  obtain z where z: "a = b @ z" unfolding a_def b_def using strip_decomp by blast
  have ha: "a = [] \<or> \<not> is_space (hd a)"
    unfolding a_def using hd_dropWhile[of is_space s] by blast
  have "b = [] \<or> \<not> is_space (hd b)"
  proof (cases "b = []")
    case True
    then show ?thesis by simp
  next
    case False
    then have "hd a = hd b" "a \<noteq> []" using z by simp_all
    with ha show ?thesis by simp
  qed
  then have 1: "dropWhile is_space b = b" by (rule dropWhile_fixed)
  have "rev b = dropWhile is_space (rev a)" by (simp add: strip_def a_def b_def)
  then have 2: "dropWhile is_space (rev b) = rev b" by simp
  have "strip b = rev (dropWhile is_space (rev (dropWhile is_space b)))" by (simp add: strip_def)
  also have "\<dots> = rev (dropWhile is_space (rev b))" by (simp only: 1)
  also have "\<dots> = rev (rev b)" by (simp only: 2)
  finally show ?thesis by (simp add: b_def)
qed

lemma replace_char_absent: "old \<notin> set s \<Longrightarrow> replace_char old new s = s"
  unfolding replace_char_def by (rule map_idI) auto

lemma lower_fixed: "\<forall>c\<in>set s. lower_char c = c \<Longrightarrow> lower s = s"
  unfolding lower_def by (rule map_idI) auto

lemma preprocess_text_chars:
  assumes "c \<in> set (preprocess_text x)"
  shows "lower_char c = c" and "c \<noteq> CHR ''$''" and "c \<noteq> CHR ''#''" and "c \<noteq> CHR ''@''"
proof -
  from assms set_preprocess_text[of x]
  have c: "c = CHR '' '' \<or> (c \<in> set (lower x) \<and> c \<noteq> CHR ''$'' \<and> c \<noteq> CHR ''#'' \<and> c \<noteq> CHR ''@'')"
    by auto
  then show "c \<noteq> CHR ''$''" "c \<noteq> CHR ''#''" "c \<noteq> CHR ''@''" by auto
  from c show "lower_char c = c"
  proof
    assume "c = CHR '' ''"
    then show ?thesis by (simp add: lower_char_space)
  next
    assume "c \<in> set (lower x) \<and> c \<noteq> CHR ''$'' \<and> c \<noteq> CHR ''#'' \<and> c \<noteq> CHR ''@''"
    then obtain d where "c = lower_char d" by (auto simp: lower_def)
    then show ?thesis by (simp add: lower_char_idem)
  qed
qed

lemma preprocess_text_normal:
  "url_free (preprocess_text x)" "ws_nf (preprocess_text x)"
  "strip (preprocess_text x) = preprocess_text x"
  unfolding preprocess_text_def Let_def
  by (simp_all add: url_free_strip url_free_re_sub_whitespace url_free_re_sub_urls
        ws_nf_strip ws_nf_re_sub_whitespace strip_idem)

text \<open>
  Claim C9. Normalising a normalised text changes nothing:
  \<open>preprocess_text (preprocess_text x) = preprocess_text x\<close> for every string \<open>x\<close>.
\<close>

theorem preprocess_text_idempotent: "preprocess_text (preprocess_text x) = preprocess_text x"
proof -
  define t where "t = preprocess_text x"
  have 1: "lower t = t"
    unfolding t_def by (rule lower_fixed) (simp add: preprocess_text_chars(1))
  have 2: "replace_char (CHR ''$'') (CHR '' '') t = t"
    unfolding t_def by (rule replace_char_absent) (use preprocess_text_chars(2) in blast)
  have 3: "replace_char (CHR ''#'') (CHR '' '') t = t"
    unfolding t_def by (rule replace_char_absent) (use preprocess_text_chars(3) in blast)
  have 4: "replace_char (CHR ''@'') (CHR '' '') t = t"
    unfolding t_def by (rule replace_char_absent) (use preprocess_text_chars(4) in blast)
  have 5: "re_sub_urls t = t"
    unfolding t_def by (rule url_free_fixed) (rule preprocess_text_normal(1))
  have 6: "re_sub_whitespace t = t"
    unfolding t_def by (rule ws_nf_fixed) (rule preprocess_text_normal(2))
  have 7: "strip t = t"
    unfolding t_def by (rule preprocess_text_normal(3))
  have "preprocess_text t = t"
    by (simp add: preprocess_text_def Let_def 1 2 3 4 5 6 7)
  then show ?thesis by (simp add: t_def)
qed

end
